theory Spec2Isabelle
  imports Main "HOL-Library.Monad_Syntax"
begin

section \<open>The kilua editor core: rows, highlighting, cursor, selection, search\<close>

text \<open>
  The development follows \<^verbatim>\<open>kilua.c\<close>. Every function of that file works on the current
  buffer \<^verbatim>\<open>E.file[E.current_file]\<close> and on the screen size \<^verbatim>\<open>E.screenrows\<close>,
  \<^verbatim>\<open>E.screencols\<close>; the buffer-level functions below take the buffer (a \<open>fileState\<close>) and
  the screen size as arguments, and the few functions that touch other buffers (the status
  message log) work on the whole editor state. The file is modelled as it is built when neither
  \<^verbatim>\<open>_REGEXP\<close> nor \<^verbatim>\<open>_UNDO\<close> is defined.

  A C operation with undefined behaviour (a read or write outside an array, a division by
  zero) has no result in the model: the functions return \<open>None\<close> there, and the tokenizer
  names the fault. C strings are lists of bytes without the terminating NUL; reading the
  byte at the end of a string gives the terminator.
\<close>

subsection \<open>Bytes and character classes\<close>

definition NUL :: char where "NUL = CHR 0x00"
definition TAB :: char where "TAB = CHR 0x09"

text \<open>\<^verbatim>\<open>isspace\<close> and \<^verbatim>\<open>isdigit\<close> in the C locale.\<close>

definition isspace :: "char \<Rightarrow> bool" where
  "isspace c = (c = CHR '' '' \<or> (9 \<le> (of_char c :: nat) \<and> (of_char c :: nat) \<le> 13))"

definition isdigit :: "char \<Rightarrow> bool" where
  "isdigit c = (48 \<le> (of_char c :: nat) \<and> (of_char c :: nat) \<le> 57)"

definition is_separator :: "char \<Rightarrow> bool" where
  "is_separator c = (c = NUL \<or> isspace c \<or> c \<in> set '':{},.()+-/*=~%[];<>|&'')"

text \<open>The byte at offset \<open>k\<close> of a NUL-terminated buffer holding \<open>s\<close>.\<close>

definition peek :: "string \<Rightarrow> nat \<Rightarrow> char" where
  "peek s k = (if k < length s then s ! k else NUL)"

text \<open>
  \<^verbatim>\<open>strncmp(p, d, strlen(d)) == 0\<close> for a delimiter \<open>d\<close>, with \<open>p\<close> at offset \<open>i\<close> of the
  rendered row: the bytes at \<open>p\<close> start with \<open>d\<close>.
\<close>

definition starts_with :: "string \<Rightarrow> nat \<Rightarrow> string \<Rightarrow> bool" where
  "starts_with r i d = (take (length d) (drop i r) = d)"

subsection \<open>Syntax configuration and rows\<close>

datatype hl_tag =
  HL_NORMAL | HL_NONPRINT | HL_COMMENT | HL_MLCOMMENT | HL_KEYWORD1 | HL_KEYWORD2
  | HL_STRING | HL_NUMBER | HL_MATCH | HL_SELECTION

definition HL_HIGHLIGHT_STRINGS :: int where "HL_HIGHLIGHT_STRINGS = 1"
definition HL_HIGHLIGHT_NUMBERS :: int where "HL_HIGHLIGHT_NUMBERS = 2"

record editorSyntax =
  keyword_list :: "string list"
  singleline_comment_start :: string
  multiline_comment_start :: string
  multiline_comment_end :: string
  flags :: int

definition highlight_strings :: "editorSyntax \<Rightarrow> bool" where
  "highlight_strings syn = (and (flags syn) HL_HIGHLIGHT_STRINGS \<noteq> 0)"

definition highlight_numbers :: "editorSyntax \<Rightarrow> bool" where
  "highlight_numbers syn = (and (flags syn) HL_HIGHLIGHT_NUMBERS \<noteq> 0)"

text \<open>
  A row. \<^verbatim>\<open>size\<close> is the length of \<open>chars\<close> and \<^verbatim>\<open>rsize\<close> the length of \<open>render\<close>;
  \<open>hl\<close> has \<^verbatim>\<open>rsize\<close> cells after \<^verbatim>\<open>editorUpdateSyntax\<close>.
\<close>

record erow =
  idx :: int
  chars :: string
  render :: string
  hl :: "hl_tag list"
  hl_oc :: bool

subsection \<open>Row rendering (the first half of editorUpdateRow)\<close>

text \<open>
  The inner loop \<^verbatim>\<open>while ((idx + 1) % tab_size != 0) render[idx++] = ' '\<close>, with \<open>idx\<close> the
  length of the output so far.
\<close>

function pad_tab :: "nat \<Rightarrow> string \<Rightarrow> string" where
  "pad_tab ts out =
     (if ts \<noteq> 0 \<and> (length out + 1) mod ts \<noteq> 0 then pad_tab ts (out @ [CHR '' '']) else out)"
  by pat_completeness auto
termination
proof (relation "measure (\<lambda>(ts, out). (ts - (length out + 1) mod ts) mod ts)")
  show "wf (measure (\<lambda>(ts, out). (ts - (length out + 1) mod ts) mod ts))"
    by simp
next
  fix ts :: nat and out :: string
  assume a: "ts \<noteq> 0 \<and> (length out + 1) mod ts \<noteq> 0"
  let ?k = "(length out + 1) mod ts"
  have k: "0 < ?k" "?k < ts" using a by auto
  have step: "(length (out @ [CHR '' '']) + 1) mod ts = (if Suc ?k = ts then 0 else Suc ?k)"
    by (simp add: mod_Suc)
  show "((ts, out @ [CHR '' '']), (ts, out))
          \<in> measure (\<lambda>(ts, out). (ts - (length out + 1) mod ts) mod ts)"
    using k by (simp only: in_measure prod.case step) (auto split: if_splits)
qed

declare pad_tab.simps [simp del]

fun render_loop :: "nat \<Rightarrow> string \<Rightarrow> string \<Rightarrow> string" where
  "render_loop ts [] out = out"
| "render_loop ts (c # cs) out =
     (if c = TAB then render_loop ts cs (pad_tab ts (out @ [CHR '' '']))
      else render_loop ts cs (out @ [c]))"

text \<open>
  The rendered form of a row's bytes. With a TAB in the row, a \<^verbatim>\<open>tab_size\<close> of zero divides
  by zero and a negative one makes the allocation
  \<^verbatim>\<open>malloc(size + tabs * tab_size + 1)\<close> too small for what the loop writes.
\<close>

definition render_of :: "int \<Rightarrow> string \<Rightarrow> string option" where
  "render_of tab_size cs =
     (if TAB \<in> set cs \<and> tab_size \<le> 0 then None
      else Some (render_loop (nat tab_size) cs []))"

subsection \<open>The tokenizer (the loop of editorUpdateSyntax)\<close>

text \<open>
  The array \<open>hl\<close> is allocated with \<^verbatim>\<open>rsize\<close> cells; a store or a load outside it, and a read
  of \<open>render\<close> behind its terminator, are faults.
\<close>

datatype fault =
  HlWriteOutOfBounds nat | HlReadOutOfBounds | RenderReadPastEnd nat | KeywordReadOutOfBounds

definition hl_store :: "hl_tag list \<Rightarrow> nat \<Rightarrow> hl_tag \<Rightarrow> fault + hl_tag list" where
  "hl_store h i v = (if i < length h then Inr (h[i := v]) else Inl (HlWriteOutOfBounds i))"

text \<open>\<^verbatim>\<open>memset(hl + i, v, n)\<close>, and the loops \<^verbatim>\<open>for (x = 0; x < n; x++) hl[i + x] = v\<close>.\<close>

fun hl_fill :: "hl_tag list \<Rightarrow> nat \<Rightarrow> nat \<Rightarrow> hl_tag \<Rightarrow> fault + hl_tag list" where
  "hl_fill h i 0 v = Inr h"
| "hl_fill h i (Suc n) v =
     (case hl_store h i v of Inl e \<Rightarrow> Inl e | Inr h' \<Rightarrow> hl_fill h' (Suc i) n v)"

text \<open>The load \<^verbatim>\<open>row->hl[i - 1]\<close>.\<close>

definition hl_prev :: "hl_tag list \<Rightarrow> nat \<Rightarrow> fault + hl_tag" where
  "hl_prev h i = (if 0 < i \<and> i - 1 < length h then Inr (h ! (i - 1)) else Inl HlReadOutOfBounds)"

text \<open>
  The test \<^verbatim>\<open>(isdigit(*p) && (prev_sep || hl[i-1] == HL_NUMBER)) || (*p == '.' && i > 0 &&
  hl[i-1] == HL_NUMBER)\<close>, with C's left-to-right evaluation.
\<close>

definition number_here :: "char \<Rightarrow> bool \<Rightarrow> nat \<Rightarrow> hl_tag list \<Rightarrow> fault + bool" where
  "number_here c prev_sep i h =
     (if isdigit c then
        (if prev_sep then Inr True
         else case hl_prev h i of Inl e \<Rightarrow> Inl e | Inr t \<Rightarrow> Inr (t = HL_NUMBER))
      else if c = CHR ''.'' \<and> 0 < i then
        (case hl_prev h i of Inl e \<Rightarrow> Inl e | Inr t \<Rightarrow> Inr (t = HL_NUMBER))
      else Inr False)"

text \<open>
  The keyword loop: the first keyword whose bytes (without a trailing \<open>|\<close>) are at \<open>p\<close> and
  are followed by a separator; the result is its length and whether it is a secondary keyword.
  \<^verbatim>\<open>memcmp(p, keywords[j], klen)\<close> reads \<open>klen\<close> bytes at \<open>p\<close>; the rendered row has its
  \<open>rsize\<close> bytes and the terminator, and a comparison that needs more reads behind the buffer.
  \<^verbatim>\<open>keywords[j][klen - 1]\<close> of an empty keyword is a read before the string.
\<close>

fun match_keyword :: "string \<Rightarrow> nat \<Rightarrow> string list \<Rightarrow> fault + (nat \<times> bool) option" where
  "match_keyword r i [] = Inr None"
| "match_keyword r i (k # ks) =
     (if k = [] then Inl KeywordReadOutOfBounds
      else let kw2 = (last k = CHR ''|'');
               klen = (if kw2 then length k - 1 else length k)
           in if length r + 1 < i + klen then Inl (RenderReadPastEnd (length r + 1))
              else if take klen (drop i r) = take klen k \<and> is_separator (peek r (i + klen))
              then Inr (Some (klen, kw2))
              else match_keyword r i ks)"

text \<open>
  The state of the loop \<^verbatim>\<open>while (*p)\<close>, with \<open>p = render + i\<close>. \<open>in_string\<close> is the opening
  quote, or NUL outside a string.
\<close>

record tok_state =
  pos_i :: nat
  prev_sep :: bool
  in_string :: char
  in_comment :: bool
  cells :: "hl_tag list"

text \<open>
  What one pass through the loop does: a fault, the end of the loop (with the array and
  whether the loop ran to the end of the row; \<open>False\<close> is the \<^verbatim>\<open>return\<close> of the single-line
  comment branch), or the state at the next \<^verbatim>\<open>continue\<close>.
\<close>

datatype tok_outcome = Fault fault | Finished "hl_tag list" bool | Continue tok_state

definition on_store :: "fault + hl_tag list \<Rightarrow> (hl_tag list \<Rightarrow> tok_outcome) \<Rightarrow> tok_outcome" where
  "on_store w k = (case w of Inl e \<Rightarrow> Fault e | Inr h \<Rightarrow> k h)"

text \<open>Handle multi line comments: inside a comment.\<close>

definition step_in_comment :: "editorSyntax \<Rightarrow> string \<Rightarrow> tok_state \<Rightarrow> tok_outcome" where
  "step_in_comment syn r st =
     (let i = pos_i st in
      on_store (hl_store (cells st) i HL_MLCOMMENT) (\<lambda>h1.
        if starts_with r i (multiline_comment_end syn) then
          on_store (hl_fill h1 i (length (multiline_comment_end syn)) HL_MLCOMMENT) (\<lambda>h2.
            Continue (st\<lparr>pos_i := i + length (multiline_comment_end syn), prev_sep := True,
                        in_comment := False, cells := h2\<rparr>))
        else Continue (st\<lparr>pos_i := i + 1, prev_sep := False, cells := h1\<rparr>)))"

text \<open>Handle multi line comments: the opening delimiter.\<close>

definition step_comment_open :: "editorSyntax \<Rightarrow> string \<Rightarrow> tok_state \<Rightarrow> tok_outcome" where
  "step_comment_open syn r st =
     (let i = pos_i st in
      on_store (hl_fill (cells st) i (length (multiline_comment_start syn)) HL_MLCOMMENT) (\<lambda>h1.
        Continue (st\<lparr>pos_i := i + length (multiline_comment_start syn), prev_sep := False,
                    in_comment := True, cells := h1\<rparr>)))"

text \<open>Handle "" and '': inside a string. A backslash takes the next byte with it.\<close>

definition step_in_string :: "editorSyntax \<Rightarrow> string \<Rightarrow> tok_state \<Rightarrow> tok_outcome" where
  "step_in_string syn r st =
     (let i = pos_i st; c = peek r i; h = cells st in
      on_store (if highlight_strings syn then hl_store h i HL_STRING else Inr h) (\<lambda>h1.
        if c = CHR 0x5C then
          on_store (if highlight_strings syn then hl_store h1 (i + 1) HL_STRING else Inr h1) (\<lambda>h2.
            Continue (st\<lparr>pos_i := i + 2, prev_sep := False, cells := h2\<rparr>))
        else Continue (st\<lparr>pos_i := i + 1,
                          in_string := (if c = in_string st then NUL else in_string st),
                          cells := h1\<rparr>)))"

text \<open>Handle "" and '': an opening quote.\<close>

definition step_quote :: "editorSyntax \<Rightarrow> string \<Rightarrow> tok_state \<Rightarrow> tok_outcome" where
  "step_quote syn r st =
     (let i = pos_i st; h = cells st in
      on_store (if highlight_strings syn then hl_store h i HL_STRING else Inr h) (\<lambda>h1.
        Continue (st\<lparr>pos_i := i + 1, prev_sep := False, in_string := peek r i, cells := h1\<rparr>)))"

text \<open>Handle numbers.\<close>

definition step_number :: "editorSyntax \<Rightarrow> string \<Rightarrow> tok_state \<Rightarrow> tok_outcome" where
  "step_number syn r st =
     (let i = pos_i st; h = cells st in
      on_store (if highlight_numbers syn then hl_store h i HL_NUMBER else Inr h) (\<lambda>h1.
        Continue (st\<lparr>pos_i := i + 1, prev_sep := False, cells := h1\<rparr>)))"

text \<open>
  The rest of the loop body: the store of \<^verbatim>\<open>HL_KEYWORD1\<close> on a separator, the keywords
  (``Handle keywords and lib calls''), and the final step (``Not special chars'').
\<close>

definition step_word :: "editorSyntax \<Rightarrow> string \<Rightarrow> tok_state \<Rightarrow> tok_outcome" where
  "step_word syn r st =
     (let i = pos_i st; c = peek r i in
      on_store (if is_separator c then hl_store (cells st) i HL_KEYWORD1 else Inr (cells st)) (\<lambda>h1.
        case (if prev_sep st then match_keyword r i (keyword_list syn) else Inr None) of
          Inl e \<Rightarrow> Fault e
        | Inr (Some (klen, kw2)) \<Rightarrow>
            on_store (hl_fill h1 i klen (if kw2 then HL_KEYWORD2 else HL_KEYWORD1)) (\<lambda>h2.
              Continue (st\<lparr>pos_i := i + klen, prev_sep := False, cells := h2\<rparr>))
        | Inr None \<Rightarrow>
            Continue (st\<lparr>pos_i := i + 1, prev_sep := is_separator c, cells := h1\<rparr>)))"

text \<open>The loop body, in the order of the source.\<close>

definition tok_step :: "editorSyntax \<Rightarrow> string \<Rightarrow> tok_state \<Rightarrow> tok_outcome" where
  "tok_step syn r st =
    (let i = pos_i st; c = peek r i in
     if length r < i then Fault (RenderReadPastEnd i)
     else if c = NUL then Finished (cells st) True
     else if in_comment st then step_in_comment syn r st
     else if multiline_comment_start syn \<noteq> [] \<and> starts_with r i (multiline_comment_start syn)
       then step_comment_open syn r st
     else if prev_sep st \<and> singleline_comment_start syn \<noteq> []
               \<and> starts_with r i (singleline_comment_start syn)
       then on_store (hl_fill (cells st) i (length r - i) HL_COMMENT) (\<lambda>h1. Finished h1 False)
     else if in_string st \<noteq> NUL then step_in_string syn r st
     else if c = CHR 0x22 \<or> c = CHR 0x27 then step_quote syn r st
     else
       (case number_here c (prev_sep st) i (cells st) of
          Inl e \<Rightarrow> Fault e
        | Inr True \<Rightarrow> step_number syn r st
        | Inr False \<Rightarrow> step_word syn r st))"

text \<open>The loop runs while the step continues; it ends since each step moves on in the row.\<close>

definition tok_measure :: "string \<Rightarrow> tok_state \<Rightarrow> nat" where
  "tok_measure r st =
     3 * (length r - pos_i st) + (if in_comment st then 2 else if prev_sep st then 1 else 0)"

lemma peek_not_NUL: "peek r i \<noteq> NUL \<Longrightarrow> i < length r"
  by (simp add: peek_def split: if_splits)

lemma on_store_Continue:
  "on_store w k = Continue st' \<Longrightarrow> \<exists>h. w = Inr h \<and> k h = Continue st'"
  by (cases w) (simp_all add: on_store_def)

lemma step_in_comment_decreases:
  "step_in_comment syn r st = Continue st' \<Longrightarrow> pos_i st < length r \<Longrightarrow> in_comment st
     \<Longrightarrow> tok_measure r st' < tok_measure r st"
  by (cases "multiline_comment_end syn = []")
     (auto simp: step_in_comment_def Let_def tok_measure_def dest!: on_store_Continue split: if_splits)

lemma step_comment_open_decreases:
  "step_comment_open syn r st = Continue st' \<Longrightarrow> pos_i st < length r
     \<Longrightarrow> multiline_comment_start syn \<noteq> [] \<Longrightarrow> tok_measure r st' < tok_measure r st"
  by (cases "multiline_comment_start syn")
     (auto simp: step_comment_open_def Let_def tok_measure_def dest!: on_store_Continue split: if_splits)

lemma step_in_string_decreases:
  "step_in_string syn r st = Continue st' \<Longrightarrow> pos_i st < length r \<Longrightarrow> \<not> in_comment st
     \<Longrightarrow> tok_measure r st' < tok_measure r st"
  by (auto simp: step_in_string_def Let_def tok_measure_def dest!: on_store_Continue split: if_splits)

lemma step_quote_decreases:
  "step_quote syn r st = Continue st' \<Longrightarrow> pos_i st < length r
     \<Longrightarrow> tok_measure r st' < tok_measure r st"
  by (auto simp: step_quote_def Let_def tok_measure_def dest!: on_store_Continue split: if_splits)

lemma step_number_decreases:
  "step_number syn r st = Continue st' \<Longrightarrow> pos_i st < length r
     \<Longrightarrow> tok_measure r st' < tok_measure r st"
  by (auto simp: step_number_def Let_def tok_measure_def dest!: on_store_Continue split: if_splits)

lemma step_word_decreases:
  assumes "step_word syn r st = Continue st'" "pos_i st < length r" "\<not> in_comment st"
  shows "tok_measure r st' < tok_measure r st"
proof -
  obtain h1 where
    k: "(case (if prev_sep st then match_keyword r (pos_i st) (keyword_list syn) else Inr None) of
          Inl e \<Rightarrow> Fault e
        | Inr (Some (klen, kw2)) \<Rightarrow>
            on_store (hl_fill h1 (pos_i st) klen (if kw2 then HL_KEYWORD2 else HL_KEYWORD1)) (\<lambda>h2.
              Continue (st\<lparr>pos_i := pos_i st + klen, prev_sep := False, cells := h2\<rparr>))
        | Inr None \<Rightarrow>
            Continue (st\<lparr>pos_i := pos_i st + 1, prev_sep := is_separator (peek r (pos_i st)),
                        cells := h1\<rparr>)) = Continue st'"
    using assms(1) by (auto simp: step_word_def Let_def dest!: on_store_Continue)
  show ?thesis
  proof (cases "if prev_sep st then match_keyword r (pos_i st) (keyword_list syn) else Inr None")
    case (Inl e)
    then show ?thesis using k by simp
  next
    case (Inr m)
    show ?thesis
    proof (cases m)
      case None
      then show ?thesis using k Inr assms(2,3) by (auto simp: tok_measure_def)
    next
      case (Some p)
      obtain klen kw2 where p: "p = (klen, kw2)" by (cases p)
      have ps: "prev_sep st" using Inr Some by (auto split: if_splits)
      from k Inr Some p obtain h2 where
        "st' = st\<lparr>pos_i := pos_i st + klen, prev_sep := False, cells := h2\<rparr>"
        by (auto dest!: on_store_Continue)
      then show ?thesis using assms(2,3) ps by (cases "klen = 0") (auto simp: tok_measure_def)
    qed
  qed
qed

lemma tok_step_decreases:
  assumes "tok_step syn r st = Continue st'"
  shows "tok_measure r st' < tok_measure r st"
proof -
  have ne: "peek r (pos_i st) \<noteq> NUL"
    using assms by (auto simp: tok_step_def Let_def split: if_splits)
  have lt: "pos_i st < length r" using ne by (rule peek_not_NUL)
  show ?thesis
    using assms lt ne
    by (auto simp: tok_step_def Let_def on_store_def
         intro: step_in_comment_decreases step_comment_open_decreases step_in_string_decreases
                step_quote_decreases step_number_decreases step_word_decreases
         split: if_splits sum.splits bool.splits)
qed

function tokenize :: "editorSyntax \<Rightarrow> string \<Rightarrow> tok_state \<Rightarrow> fault + (hl_tag list \<times> bool)" where
  "tokenize syn r st =
     (case tok_step syn r st of
        Fault e \<Rightarrow> Inl e
      | Finished h whole \<Rightarrow> Inr (h, whole)
      | Continue st' \<Rightarrow> tokenize syn r st')"
  by pat_completeness auto
termination
  by (relation "measure (\<lambda>(syn, r, st). tok_measure r st)") (auto simp: tok_step_decreases)

declare tokenize.simps [simp del]

subsection \<open>Buffers\<close>

text \<open>
  The state of one buffer (\<^verbatim>\<open>struct fileState\<close>; the field \<^verbatim>\<open>syntax\<close> is \<open>syntax_cfg\<close> here).
  Between two operations the array \<open>row\<close> holds \<open>numrows\<close> rows; inside \<^verbatim>\<open>editorInsertRow\<close>
  it already holds the new row while \<open>numrows\<close> still has its old value.
\<close>

record fileState =
  cx :: int
  cy :: int
  markx :: int
  marky :: int
  rowoff :: int
  coloff :: int
  numrows :: nat
  row :: "erow list"
  dirty :: int
  filename :: "string option"
  syntax_cfg :: "editorSyntax option"
  tab_size :: int

definition upd_row :: "nat \<Rightarrow> (erow \<Rightarrow> erow) \<Rightarrow> fileState \<Rightarrow> fileState" where
  "upd_row k f s = s\<lparr>row := (row s)[k := f (row s ! k)]\<rparr>"

text \<open>
  \<^verbatim>\<open>(filerow >= numrows) ? NULL : &row[filerow]\<close>: no row, or the position the pointer
  refers to. Reading through a pointer that refers to no element of the array is a fault.
\<close>

definition row_or_null :: "fileState \<Rightarrow> int \<Rightarrow> int option" where
  "row_or_null s filerow = (if int (numrows s) \<le> filerow then None else Some filerow)"

definition deref :: "fileState \<Rightarrow> int \<Rightarrow> erow option" where
  "deref s p = (if 0 \<le> p \<and> nat p < length (row s) then Some (row s ! nat p) else None)"

subsection \<open>Syntax highlighting of a row\<close>

text \<open>
  \<^verbatim>\<open>editorRowHasOpenComment(&row[k])\<close>. An empty row asks the row before it. The last cell of
  \<open>hl\<close> and the last \<^verbatim>\<open>strlen(multiline_comment_end)\<close> bytes of \<open>render\<close> are read; with a row
  shorter than the delimiter, \<^verbatim>\<open>row->render + row->rsize - len\<close> points before the buffer.
\<close>

partial_function (option) editorRowHasOpenComment ::
  "editorSyntax \<Rightarrow> erow list \<Rightarrow> nat \<Rightarrow> bool option" where
  "editorRowHasOpenComment sy rows k =
     (if length rows \<le> k then None
      else if render (rows ! k) = [] then
        (if 0 < idx (rows ! k) then editorRowHasOpenComment sy rows (nat (idx (rows ! k) - 1))
         else Some False)
      else if length (hl (rows ! k)) < length (render (rows ! k)) then None
      else if hl (rows ! k) ! (length (render (rows ! k)) - 1) \<noteq> HL_MLCOMMENT then Some False
      else if multiline_comment_end sy = [] then Some True
      else if length (render (rows ! k)) < length (multiline_comment_end sy) then None
      else Some (\<not> starts_with (render (rows ! k))
                     (length (render (rows ! k)) - length (multiline_comment_end sy))
                     (multiline_comment_end sy)))"

declare editorRowHasOpenComment.simps [code]

text \<open>The state of the loop at its start: leading white space is skipped.\<close>

definition tok_init :: "string \<Rightarrow> bool \<Rightarrow> tok_state" where
  "tok_init r inc =
     \<lparr>pos_i = length (takeWhile isspace r), prev_sep = True, in_string = NUL,
      in_comment = inc, cells = replicate (length r) HL_NORMAL\<rparr>"

text \<open>The loop on a row, from its start; a fault leaves no result.\<close>

definition highlight_row :: "editorSyntax \<Rightarrow> string \<Rightarrow> bool \<Rightarrow> (hl_tag list \<times> bool) option" where
  "highlight_row sy r inc =
     (case tokenize sy r (tok_init r inc) of Inl e \<Rightarrow> None | Inr res \<Rightarrow> Some res)"

text \<open>
  \<^verbatim>\<open>editorUpdateSyntax(&row[k])\<close>. When the open-comment state of the row changes and
  \<^verbatim>\<open>row->idx + 1 < numrows\<close>, the next row is highlighted again, before \<^verbatim>\<open>hl_oc\<close> is stored.
  The \<^verbatim>\<open>return\<close> of the single-line comment branch leaves the function before that.
\<close>

partial_function (option) editorUpdateSyntax :: "fileState \<Rightarrow> nat \<Rightarrow> fileState option" where
  "editorUpdateSyntax s k =
     (if length (row s) \<le> k then None
      else case syntax_cfg s of
        None \<Rightarrow>
          Some (upd_row k (\<lambda>r. r\<lparr>hl := replicate (length (render r)) HL_NORMAL\<rparr>) s)
      | Some sy \<Rightarrow>
          (case (if 0 < idx (row s ! k)
                 then editorRowHasOpenComment sy (row s) (nat (idx (row s ! k) - 1))
                 else Some False) of
             None \<Rightarrow> None
           | Some inc \<Rightarrow>
               (case highlight_row sy (render (row s ! k)) inc of
                  None \<Rightarrow> None
                | Some res \<Rightarrow>
                    if \<not> snd res then Some (upd_row k (\<lambda>r. r\<lparr>hl := fst res\<rparr>) s)
                    else
                      (case editorRowHasOpenComment sy
                              (row (upd_row k (\<lambda>r. r\<lparr>hl := fst res\<rparr>) s)) k of
                         None \<Rightarrow> None
                       | Some oc \<Rightarrow>
                           if hl_oc (row s ! k) \<noteq> oc \<and> idx (row s ! k) + 1 < int (numrows s) then
                             (if idx (row s ! k) + 1 < 0 then None
                              else do {
                                     s2 \<leftarrow> editorUpdateSyntax (upd_row k (\<lambda>r. r\<lparr>hl := fst res\<rparr>) s)
                                            (nat (idx (row s ! k) + 1));
                                     Some (upd_row k (\<lambda>r. r\<lparr>hl_oc := oc\<rparr>) s2)
                                   })
                           else Some (upd_row k (\<lambda>r. r\<lparr>hl := fst res, hl_oc := oc\<rparr>) s)))))"

declare editorUpdateSyntax.simps [code]

text \<open>\<^verbatim>\<open>editorUpdateRow(&row[k])\<close>: the rendered form, then the highlighting.\<close>

definition editorUpdateRow :: "fileState \<Rightarrow> nat \<Rightarrow> fileState option" where
  "editorUpdateRow s k =
     (if length (row s) \<le> k then None
      else case render_of (tab_size s) (chars (row s ! k)) of
        None \<Rightarrow> None
      | Some rd \<Rightarrow> editorUpdateSyntax (upd_row k (\<lambda>r. r\<lparr>render := rd\<rparr>) s) k)"

subsection \<open>Row operations\<close>

text \<open>
  \<^verbatim>\<open>editorInsertRow(at, s, len)\<close>: the rows from \<open>at\<close> on move up and their \<open>idx\<close> grows; the
  new row is rendered and highlighted while \<open>numrows\<close> is still the old count.
\<close>

definition editorInsertRow :: "fileState \<Rightarrow> int \<Rightarrow> string \<Rightarrow> fileState option" where
  "editorInsertRow s at_idx bytes =
     (if int (numrows s) < at_idx then Some s
      else if at_idx < 0 then None
      else
        case editorUpdateRow
               (s\<lparr>row := take (nat at_idx) (row s)
                          @ [\<lparr>idx = at_idx, chars = bytes, render = [], hl = [], hl_oc = False\<rparr>]
                          @ map (\<lambda>r. r\<lparr>idx := idx r + 1\<rparr>) (drop (nat at_idx) (row s))\<rparr>)
               (nat at_idx) of
          None \<Rightarrow> None
        | Some s1 \<Rightarrow> Some (s1\<lparr>numrows := numrows s1 + 1, dirty := dirty s1 + 1\<rparr>))"

text \<open>\<^verbatim>\<open>editorDelRow(at)\<close>.\<close>

definition editorDelRow :: "fileState \<Rightarrow> int \<Rightarrow> fileState option" where
  "editorDelRow s at_idx =
     (if int (numrows s) \<le> at_idx then Some s
      else if at_idx < 0 then None
      else Some (s\<lparr>row := take (nat at_idx) (row s)
                          @ map (\<lambda>r. r\<lparr>idx := idx r - 1\<rparr>) (drop (nat at_idx + 1) (row s)),
                   numrows := numrows s - 1, dirty := dirty s + 1\<rparr>))"

text \<open>\<^verbatim>\<open>editorRowInsertChar(&row[k], at, c)\<close>: beyond the end the row is padded with spaces.\<close>

definition editorRowInsertChar :: "fileState \<Rightarrow> nat \<Rightarrow> int \<Rightarrow> char \<Rightarrow> fileState option" where
  "editorRowInsertChar s k at_idx c =
     (if length (row s) \<le> k \<or> at_idx < 0 then None
      else
        case editorUpdateRow
               (upd_row k (\<lambda>r. r\<lparr>chars :=
                   (if int (length (chars r)) < at_idx
                    then chars r @ replicate (nat at_idx - length (chars r)) (CHR '' '') @ [c]
                    else take (nat at_idx) (chars r) @ [c] @ drop (nat at_idx) (chars r))\<rparr>) s) k of
          None \<Rightarrow> None
        | Some s1 \<Rightarrow> Some (s1\<lparr>dirty := dirty s1 + 1\<rparr>))"

text \<open>\<^verbatim>\<open>editorRowAppendString(&row[k], s, len)\<close>.\<close>

definition editorRowAppendString :: "fileState \<Rightarrow> nat \<Rightarrow> string \<Rightarrow> fileState option" where
  "editorRowAppendString s k bytes =
     (if length (row s) \<le> k then None
      else case editorUpdateRow (upd_row k (\<lambda>r. r\<lparr>chars := chars r @ bytes\<rparr>) s) k of
        None \<Rightarrow> None
      | Some s1 \<Rightarrow> Some (s1\<lparr>dirty := dirty s1 + 1\<rparr>))"

text \<open>
  \<^verbatim>\<open>editorRowDelChar(&row[k], at)\<close>. The \<^verbatim>\<open>memmove\<close> takes the terminator with it, and the row
  is rendered before \<^verbatim>\<open>row->size--\<close>: the rendering reads the \<open>size\<close> bytes that end with the
  terminator.
\<close>

definition editorRowDelChar :: "fileState \<Rightarrow> nat \<Rightarrow> int \<Rightarrow> fileState option" where
  "editorRowDelChar s k at_idx =
     (if length (row s) \<le> k then None
      else if int (length (chars (row s ! k))) \<le> at_idx then Some s
      else if at_idx < 0 then Some s
      else
        case editorUpdateRow
               (upd_row k (\<lambda>r. r\<lparr>chars := take (nat at_idx) (chars r) @ drop (nat at_idx + 1) (chars r)
                                                @ [NUL]\<rparr>) s) k of
          None \<Rightarrow> None
        | Some s1 \<Rightarrow>
            Some ((upd_row k (\<lambda>r. r\<lparr>chars := butlast (chars r)\<rparr>) s1)\<lparr>dirty := dirty s1 + 1\<rparr>))"

subsection \<open>Cursor motion\<close>

datatype key = ARROW_LEFT | ARROW_RIGHT | ARROW_UP | ARROW_DOWN

text \<open>The \<^verbatim>\<open>switch\<close> of \<^verbatim>\<open>editorMoveCursor\<close>.\<close>

definition move_switch :: "int \<Rightarrow> int \<Rightarrow> key \<Rightarrow> fileState \<Rightarrow> fileState option" where
  "move_switch screenrows screencols k s =
     (let filerow = rowoff s + cy s; filecol = coloff s + cx s in
      case k of
        ARROW_LEFT \<Rightarrow>
          if cx s = 0 then
            (if coloff s \<noteq> 0 then Some (s\<lparr>coloff := coloff s - 1\<rparr>)
             else if 0 < filerow then
               (case deref s (filerow - 1) of
                  None \<Rightarrow> None
                | Some prev \<Rightarrow>
                    if screencols - 1 < int (length (chars prev))
                    then Some (s\<lparr>cy := cy s - 1, cx := screencols - 1,
                                 coloff := int (length (chars prev)) - screencols + 1\<rparr>)
                    else Some (s\<lparr>cy := cy s - 1, cx := int (length (chars prev))\<rparr>))
             else Some s)
          else Some (s\<lparr>cx := cx s - 1\<rparr>)
      | ARROW_RIGHT \<Rightarrow>
          (case row_or_null s filerow of
             None \<Rightarrow> Some s
           | Some p \<Rightarrow>
               (case deref s p of
                  None \<Rightarrow> None
                | Some r \<Rightarrow>
                    if filecol < int (length (chars r)) then
                      (if cx s = screencols - 1 then Some (s\<lparr>coloff := coloff s + 1\<rparr>)
                       else Some (s\<lparr>cx := cx s + 1\<rparr>))
                    else if filecol = int (length (chars r)) then
                      (if cy s = screenrows - 1
                       then Some (s\<lparr>cx := 0, coloff := 0, rowoff := rowoff s + 1\<rparr>)
                       else if filerow < int (numrows s) - 1
                       then Some (s\<lparr>cx := 0, coloff := 0, cy := cy s + 1\<rparr>)
                       else Some s)
                    else Some s))
      | ARROW_UP \<Rightarrow>
          if cy s = 0 then (if rowoff s \<noteq> 0 then Some (s\<lparr>rowoff := rowoff s - 1\<rparr>) else Some s)
          else Some (s\<lparr>cy := cy s - 1\<rparr>)
      | ARROW_DOWN \<Rightarrow>
          if filerow < int (numrows s) - 1 then
            (if cy s = screenrows - 1 then Some (s\<lparr>rowoff := rowoff s + 1\<rparr>)
             else Some (s\<lparr>cy := cy s + 1\<rparr>))
          else Some s)"

text \<open>``Fix cx if the current line has not enough chars.''\<close>

definition fix_cx :: "fileState \<Rightarrow> fileState option" where
  "fix_cx s =
     (let filerow = rowoff s + cy s; filecol = coloff s + cx s in
      case (case row_or_null s filerow of
              None \<Rightarrow> Some 0
            | Some p \<Rightarrow> map_option (\<lambda>r. int (length (chars r))) (deref s p)) of
        None \<Rightarrow> None
      | Some rowlen \<Rightarrow>
          if rowlen < filecol then
            (if cx s - (filecol - rowlen) < 0
             then Some (s\<lparr>cx := 0, coloff := coloff s + (cx s - (filecol - rowlen))\<rparr>)
             else Some (s\<lparr>cx := cx s - (filecol - rowlen)\<rparr>))
          else Some s)"

definition editorMoveCursor :: "int \<Rightarrow> int \<Rightarrow> key \<Rightarrow> fileState \<Rightarrow> fileState option" where
  "editorMoveCursor screenrows screencols k s =
     (case move_switch screenrows screencols k s of None \<Rightarrow> None | Some s1 \<Rightarrow> fix_cx s1)"

text \<open>Doing a step \<open>n\<close> times (the counted loops \<^verbatim>\<open>while (x > 0)\<close>, \<^verbatim>\<open>for (i = 0; i < max; i++)\<close>).\<close>

fun times_do :: "nat \<Rightarrow> ('a \<Rightarrow> 'a option) \<Rightarrow> 'a \<Rightarrow> 'a option" where
  "times_do 0 f s = Some s"
| "times_do (Suc n) f s = (case f s of None \<Rightarrow> None | Some s1 \<Rightarrow> times_do n f s1)"

subsection \<open>The byte at the cursor, and the selection\<close>

text \<open>\<^verbatim>\<open>at()\<close>: the byte of \<open>render\<close> at \<open>cx\<close>, or a newline at and behind the end of the row.\<close>

definition at :: "fileState \<Rightarrow> char option" where
  "at s =
     (case row_or_null s (rowoff s + cy s) of
        None \<Rightarrow> Some (CHR 0x0A)
      | Some p \<Rightarrow>
          (case deref s p of
             None \<Rightarrow> None
           | Some r \<Rightarrow>
               if cx s < int (length (render r)) then
                 (if cx s < 0 then None else Some (render r ! nat (cx s)))
               else Some (CHR 0x0A)))"

text \<open>
  The loop of \<^verbatim>\<open>get_selection\<close>, the same to the left and to the right: take the byte at the
  cursor, move, and stop when the cursor has reached the mark.
\<close>

partial_function (option) selection_walk ::
  "int \<Rightarrow> int \<Rightarrow> key \<Rightarrow> fileState \<Rightarrow> string \<Rightarrow> (fileState \<times> string) option" where
  "selection_walk screenrows screencols k s ab =
     (case at s of
        None \<Rightarrow> None
      | Some c \<Rightarrow>
          (case editorMoveCursor screenrows screencols k s of
             None \<Rightarrow> None
           | Some s1 \<Rightarrow>
               if coloff s1 + cx s1 = markx s1 \<and> rowoff s1 + cy s1 = marky s1
               then Some (s1, ab @ [c])
               else selection_walk screenrows screencols k s1 (ab @ [c])))"

declare selection_walk.simps [code]

text \<open>\<^verbatim>\<open>strrev\<close> turns a C string round in place: the bytes before the first NUL.\<close>

definition strrev :: "string \<Rightarrow> string" where
  "strrev bytes = rev (takeWhile (\<lambda>c. c \<noteq> NUL) bytes) @ dropWhile (\<lambda>c. c \<noteq> NUL) bytes"

text \<open>What \<^verbatim>\<open>strlen\<close> and \<^verbatim>\<open>lua_pushstring\<close> see of a buffer.\<close>

definition c_string :: "string \<Rightarrow> string" where
  "c_string bytes = takeWhile (\<lambda>c. c \<noteq> NUL) bytes"

text \<open>
  \<^verbatim>\<open>get_selection()\<close>: the bytes collected (the buffer that is returned, without its
  terminator) and the buffer state with the cursor put back.
\<close>

definition get_selection :: "int \<Rightarrow> int \<Rightarrow> fileState \<Rightarrow> (string \<times> fileState) option" where
  "get_selection screenrows screencols s =
     (let x = coloff s + cx s; y = rowoff s + cy s;
          left = (marky s < y \<or> (markx s < x \<and> y = marky s)) in
      case selection_walk screenrows screencols (if left then ARROW_LEFT else ARROW_RIGHT) s [] of
        None \<Rightarrow> None
      | Some (s1, ab) \<Rightarrow>
          (case at s1 of
             None \<Rightarrow> None
           | Some c \<Rightarrow>
               Some (if left then strrev (ab @ [c]) else ab @ [c],
                     s1\<lparr>cx := cx s, cy := cy s, coloff := coloff s, rowoff := rowoff s\<rparr>)))"

text \<open>\<^verbatim>\<open>selection_lua\<close>: nil without a mark or with the cursor on the mark.\<close>

definition selection_lua :: "int \<Rightarrow> int \<Rightarrow> fileState \<Rightarrow> (string option \<times> fileState) option" where
  "selection_lua screenrows screencols s =
     (if markx s = -1 \<and> marky s = -1 then Some (None, s)
      else if markx s = coloff s + cx s \<and> marky s = rowoff s + cy s then Some (None, s)
      else case get_selection screenrows screencols s of
             None \<Rightarrow> None
           | Some (t, s1) \<Rightarrow> Some (Some (c_string t), s1))"

subsection \<open>Editing at the cursor\<close>

text \<open>\<^verbatim>\<open>delete_lua\<close>: backspace.\<close>

definition delete_lua :: "int \<Rightarrow> int \<Rightarrow> fileState \<Rightarrow> fileState option" where
  "delete_lua screenrows screencols s =
     (let filerow = rowoff s + cy s; filecol = coloff s + cx s in
      case row_or_null s filerow of
        None \<Rightarrow> Some s
      | Some p \<Rightarrow>
          if filecol = 0 \<and> filerow = 0 then Some s
          else if filecol = 0 then
            (case (deref s (filerow - 1), deref s p) of
               (Some prev, Some r) \<Rightarrow>
                 (case editorRowAppendString s (nat (filerow - 1)) (chars r) of
                    None \<Rightarrow> None
                  | Some s1 \<Rightarrow>
                      (case editorDelRow s1 filerow of
                         None \<Rightarrow> None
                       | Some s2 \<Rightarrow>
                           let s3 = (if cy s2 = 0 then s2\<lparr>rowoff := rowoff s2 - 1\<rparr>
                                     else s2\<lparr>cy := cy s2 - 1\<rparr>);
                               s4 = s3\<lparr>cx := int (length (chars prev))\<rparr>;
                               s5 = (if screencols \<le> cx s4
                                     then s4\<lparr>cx := cx s4 - ((screencols - cx s4) + 1),
                                             coloff := coloff s4 + ((screencols - cx s4) + 1)\<rparr>
                                     else s4);
                               s6 = (if coloff s5 < 0 then s5\<lparr>coloff := 0\<rparr> else s5);
                               s7 = (if rowoff s6 < 0 then s6\<lparr>rowoff := 0\<rparr> else s6)
                           in Some (s7\<lparr>dirty := dirty s7 + 1\<rparr>)))
             | _ \<Rightarrow> None)
          else
            (if p < 0 then None
             else case editorRowDelChar s (nat p) (filecol - 1) of
               None \<Rightarrow> None
             | Some s1 \<Rightarrow>
                 let s2 = (if cx s1 = 0 \<and> coloff s1 \<noteq> 0 then s1\<lparr>coloff := coloff s1 - 1\<rparr>
                           else s1\<lparr>cx := cx s1 - 1\<rparr>);
                     s3 = (if coloff s2 < 0 then s2\<lparr>coloff := 0\<rparr> else s2);
                     s4 = (if rowoff s3 < 0 then s3\<lparr>rowoff := 0\<rparr> else s3)
                 in case editorUpdateRow s4 (nat p) of
                      None \<Rightarrow> None
                    | Some s5 \<Rightarrow> Some (s5\<lparr>dirty := dirty s5 + 1\<rparr>)))"

text \<open>
  \<^verbatim>\<open>cut_selection_lua\<close>: as many backspaces as the selection has bytes, each after a step to
  the right when the cursor is before the mark.
\<close>

definition cut_selection_lua :: "int \<Rightarrow> int \<Rightarrow> fileState \<Rightarrow> fileState option" where
  "cut_selection_lua screenrows screencols s =
     (let x = coloff s + cx s; y = rowoff s + cy s in
      if markx s = -1 \<and> marky s = -1 then Some s
      else if markx s = x \<and> marky s = y then Some s
      else
        case get_selection screenrows screencols s of
          None \<Rightarrow> None
        | Some (sel, s1) \<Rightarrow>
            (case (if marky s < y \<or> (markx s < x \<and> y = marky s)
                   then (case editorMoveCursor screenrows screencols ARROW_RIGHT s1 of
                           None \<Rightarrow> None
                         | Some s2 \<Rightarrow>
                             times_do (length (c_string sel)) (delete_lua screenrows screencols) s2)
                   else times_do (length (c_string sel))
                          (\<lambda>t. case editorMoveCursor screenrows screencols ARROW_RIGHT t of
                                  None \<Rightarrow> None
                                | Some t1 \<Rightarrow> delete_lua screenrows screencols t1) s1) of
               None \<Rightarrow> None
             | Some s3 \<Rightarrow> Some (s3\<lparr>markx := -1, marky := -1\<rparr>)))"

text \<open>
  The loop \<^verbatim>\<open>while (numrows <= filerow) editorInsertRow(numrows, "", 0)\<close> of
  \<^verbatim>\<open>editorInsertChar\<close>.
\<close>

partial_function (option) fill_rows :: "fileState \<Rightarrow> int \<Rightarrow> fileState option" where
  "fill_rows s filerow =
     (if int (numrows s) \<le> filerow then
        (case editorInsertRow s (int (numrows s)) [] of
           None \<Rightarrow> None
         | Some s1 \<Rightarrow> fill_rows s1 filerow)
      else Some s)"

declare fill_rows.simps [code]

text \<open>\<^verbatim>\<open>editorInsertNewline\<close>.\<close>

definition editorInsertNewline :: "int \<Rightarrow> int \<Rightarrow> fileState \<Rightarrow> fileState option" where
  "editorInsertNewline screenrows screencols s =
     (let filerow = rowoff s + cy s; filecol = coloff s + cx s;
          fixcursor = (\<lambda>t. (if cy t = screenrows - 1 then t\<lparr>rowoff := rowoff t + 1\<rparr>
                             else t\<lparr>cy := cy t + 1\<rparr>)\<lparr>cx := 0, coloff := 0\<rparr>) in
      case row_or_null s filerow of
        None \<Rightarrow>
          if filerow = int (numrows s)
          then map_option fixcursor (editorInsertRow s filerow [])
          else Some s
      | Some p \<Rightarrow>
          (case deref s p of
             None \<Rightarrow> None
           | Some r \<Rightarrow>
               if (if int (length (chars r)) \<le> filecol then int (length (chars r)) else filecol) = 0
               then map_option fixcursor (editorInsertRow s filerow [])
               else if filecol < 0 then None
               else
                 (case editorInsertRow s (filerow + 1) (drop (nat filecol) (chars r)) of
                    None \<Rightarrow> None
                  | Some s1 \<Rightarrow>
                      map_option fixcursor
                        (editorUpdateRow
                           (upd_row (nat p) (\<lambda>r. r\<lparr>chars := take (nat filecol) (chars r)\<rparr>) s1)
                           (nat p)))))"

text \<open>\<^verbatim>\<open>editorInsertChar(c)\<close>.\<close>

definition editorInsertChar :: "int \<Rightarrow> int \<Rightarrow> char \<Rightarrow> fileState \<Rightarrow> fileState option" where
  "editorInsertChar screenrows screencols c s =
     (if c = CHR 0x0A then editorInsertNewline screenrows screencols s
      else
        let filerow = rowoff s + cy s; filecol = coloff s + cx s in
        case (case row_or_null s filerow of None \<Rightarrow> fill_rows s filerow | Some p \<Rightarrow> Some s) of
          None \<Rightarrow> None
        | Some s1 \<Rightarrow>
            if filerow < 0 then None
            else
              (case editorRowInsertChar s1 (nat filerow) filecol c of
                 None \<Rightarrow> None
               | Some s2 \<Rightarrow>
                   Some ((if cx s2 = screencols - 1 then s2\<lparr>coloff := coloff s2 + 1\<rparr>
                          else s2\<lparr>cx := cx s2 + 1\<rparr>)\<lparr>dirty := dirty s2 + 1\<rparr>)))"

text \<open>\<^verbatim>\<open>insert_lua\<close> with a string: its bytes one after the other.\<close>

fun insert_lua :: "int \<Rightarrow> int \<Rightarrow> string \<Rightarrow> fileState \<Rightarrow> fileState option" where
  "insert_lua screenrows screencols [] s = Some s"
| "insert_lua screenrows screencols (c # cs) s =
     (case editorInsertChar screenrows screencols c s of
        None \<Rightarrow> None
      | Some s1 \<Rightarrow> insert_lua screenrows screencols cs s1)"

subsection \<open>The buffer as one string\<close>

text \<open>
  The two loops of \<^verbatim>\<open>editorRowsToString\<close> over the rows \<open>j < numrows\<close>: the count of bytes
  (\<open>size + 1\<close> for each row), and the copy, which puts a newline behind the bytes of each row.
\<close>

fun rows_totlen :: "erow list \<Rightarrow> int" where
  "rows_totlen [] = 0"
| "rows_totlen (r # rs) = int (length (chars r)) + 1 + rows_totlen rs"

fun rows_copy :: "erow list \<Rightarrow> string" where
  "rows_copy [] = []"
| "rows_copy (r # rs) = chars r @ [CHR 0x0A] @ rows_copy rs"

text \<open>The result is the buffer (without the terminating NUL) and \<^verbatim>\<open>*buflen\<close>.\<close>

definition editorRowsToString :: "fileState \<Rightarrow> (string \<times> int) option" where
  "editorRowsToString s =
     (if length (row s) < numrows s then None
      else Some (rows_copy (take (numrows s) (row s)), rows_totlen (take (numrows s) (row s))))"

subsection \<open>Syntax settings\<close>

text \<open>The loop ``Force re-render'': \<^verbatim>\<open>for (i = 0; i < numrows; i++) editorUpdateRow(row + i)\<close>.\<close>

partial_function (option) rerender_rows :: "fileState \<Rightarrow> nat \<Rightarrow> fileState option" where
  "rerender_rows s i =
     (if i < numrows s then
        (case editorUpdateRow s i of None \<Rightarrow> None | Some s1 \<Rightarrow> rerender_rows s1 (i + 1))
      else Some s)"

declare rerender_rows.simps [code]

text \<open>\<^verbatim>\<open>set_syntax_keywords_lua\<close> with a table of strings, in the order of the traversal.\<close>

definition set_syntax_keywords_lua :: "string list \<Rightarrow> fileState \<Rightarrow> fileState option" where
  "set_syntax_keywords_lua kws s =
     rerender_rows
       (s\<lparr>syntax_cfg := Some
            ((case syntax_cfg s of
                None \<Rightarrow> \<lparr>keyword_list = [], singleline_comment_start = [],
                          multiline_comment_start = [], multiline_comment_end = [],
                          flags = or HL_HIGHLIGHT_STRINGS HL_HIGHLIGHT_NUMBERS\<rparr>
              | Some sy \<Rightarrow> sy)\<lparr>keyword_list := kws\<rparr>)\<rparr>) 0"

text \<open>
  \<^verbatim>\<open>set_syntax_comments_lua\<close> with three strings. The delimiters are copied with
  \<^verbatim>\<open>strcpy\<close> into arrays declared in \<^verbatim>\<open>kilua.h\<close>, which is not among the sources; their
  size is the argument \<open>delim_size\<close>, and a string that does not fit with its terminator
  overflows the array.
\<close>

definition set_syntax_comments_lua ::
  "nat \<Rightarrow> string \<Rightarrow> string \<Rightarrow> string \<Rightarrow> fileState \<Rightarrow> fileState option" where
  "set_syntax_comments_lua delim_size single multi_open multi_end s =
     (case syntax_cfg s of
        None \<Rightarrow> Some s
      | Some sy \<Rightarrow>
          if delim_size \<le> length single \<or> delim_size \<le> length multi_open
               \<or> delim_size \<le> length multi_end then None
          else rerender_rows
                 (s\<lparr>syntax_cfg := Some (sy\<lparr>singleline_comment_start := single,
                                           multiline_comment_start := multi_open,
                                           multiline_comment_end := multi_end\<rparr>)\<rparr>) 0)"

subsection \<open>The editor: buffers, screen size, status message\<close>

text \<open>
  The global state \<open>E\<close>. \<^verbatim>\<open>E.max_files\<close> is the length of \<open>files\<close> (the array \<^verbatim>\<open>E.file\<close>). The array
  \<^verbatim>\<open>E.statusmsg\<close> is declared in \<^verbatim>\<open>kilua.h\<close>, which is not among the sources; its size
  is the field \<open>statusmsg_size\<close>.
\<close>

record editorConfig =
  screenrows :: int
  screencols :: int
  files :: "fileState list"
  current_file :: nat
  statusmsg :: string
  statusmsg_size :: nat

text \<open>An operation on \<^verbatim>\<open>E.file[E.current_file]\<close>.\<close>

definition current :: "editorConfig \<Rightarrow> fileState option" where
  "current E = (if current_file E < length (files E) then Some (files E ! current_file E) else None)"

definition on_current ::
  "(int \<Rightarrow> int \<Rightarrow> fileState \<Rightarrow> fileState option) \<Rightarrow> editorConfig \<Rightarrow> editorConfig option" where
  "on_current f E =
     (case current E of
        None \<Rightarrow> None
      | Some s \<Rightarrow>
          (case f (screenrows E) (screencols E) s of
             None \<Rightarrow> None
           | Some s1 \<Rightarrow> Some (E\<lparr>files := (files E)[current_file E := s1]\<rparr>)))"

text \<open>The first buffer named \<^verbatim>\<open>*Messages*\<close>, searched from index \<open>i\<close>.\<close>

fun find_messages :: "fileState list \<Rightarrow> nat \<Rightarrow> nat option" where
  "find_messages [] i = None"
| "find_messages (f # fs) i =
     (if filename f = Some ''*Messages*'' then Some i else find_messages fs (Suc i))"

text \<open>
  \<^verbatim>\<open>editorSetStatusMessage(log, fmt, ...)\<close> with the formatted text \<open>msg\<close>: the text is cut to
  the size of \<^verbatim>\<open>E.statusmsg\<close>; with \<open>log\<close> it is typed, with a newline, into the first buffer
  named \<^verbatim>\<open>*Messages*\<close>.
\<close>

definition editorSetStatusMessage :: "bool \<Rightarrow> string \<Rightarrow> editorConfig \<Rightarrow> editorConfig option" where
  "editorSetStatusMessage log msg E =
     (let E1 = E\<lparr>statusmsg := take (statusmsg_size E - 1) msg\<rparr> in
      if \<not> log then Some E1
      else case find_messages (files E1) 0 of
        None \<Rightarrow> Some E1
      | Some i \<Rightarrow>
          (case on_current (\<lambda>sr sc. insert_lua sr sc (statusmsg E1 @ [CHR 0x0A]))
                  (E1\<lparr>current_file := i\<rparr>) of
             None \<Rightarrow> None
           | Some E2 \<Rightarrow> Some (E2\<lparr>current_file := current_file E\<rparr>)))"

text \<open>
  The script. \<^verbatim>\<open>call_lua(function, arg)\<close> looks a global function up and calls it: the
  script is a table from names to what the function does with its argument and the editor
  (an error message, if it raises one). A missing function and an error are reported in the
  status line.
\<close>

type_synonym script = "string \<Rightarrow> (string \<Rightarrow> editorConfig \<Rightarrow> (string option \<times> editorConfig) option) option"

definition call_lua :: "script \<Rightarrow> string \<Rightarrow> string \<Rightarrow> editorConfig \<Rightarrow> editorConfig option" where
  "call_lua lua fn arg E =
     (case lua fn of
        None \<Rightarrow> editorSetStatusMessage True (''Failed to find function '' @ fn) E
      | Some f \<Rightarrow>
          (case f arg E of
             None \<Rightarrow> None
           | Some (None, E1) \<Rightarrow> Some E1
           | Some (Some err, E1) \<Rightarrow>
               editorSetStatusMessage True (fn @ '' failed '' @ err) E1))"

subsection \<open>Search\<close>

text \<open>
  The inner loop of \<^verbatim>\<open>search_lua\<close>, \<^verbatim>\<open>for (x = ...; x < rsize; x++)\<close> with
  \<^verbatim>\<open>strncmp(render + x, term, strlen(term)) == 0\<close>: the first column from \<open>x\<close> on where the
  term is found.
\<close>

function scan_from :: "string \<Rightarrow> string \<Rightarrow> nat \<Rightarrow> nat option" where
  "scan_from r term x =
     (if x < length r then (if starts_with r x term then Some x else scan_from r term (x + 1))
      else None)"
  by pat_completeness auto
termination
  by (relation "measure (\<lambda>(r, term, x). length r - x)") auto

declare scan_from.simps [simp del]

text \<open>
  The outer loop, \<open>n\<close> rows to go, at row \<open>cur\<close>, on a screen of \<open>scols\<close> columns: on a match the cursor is put on it and the
  length of the match is the result; otherwise the next row is searched from its start.
\<close>

fun search_rows :: "nat \<Rightarrow> int \<Rightarrow> string \<Rightarrow> int \<Rightarrow> fileState \<Rightarrow> (int option \<times> fileState) option" where
  "search_rows 0 scols term cur s = Some (None, s)"
| "search_rows (Suc n) scols term cur s =
     (case deref s cur of
        None \<Rightarrow> None
      | Some r \<Rightarrow>
          if cx s + coloff s < 0 then None
          else
            (case scan_from (render r) term (nat (cx s + coloff s)) of
               Some x \<Rightarrow>
                 Some (Some (int (length term)),
                       (if scols < int x
                        then s\<lparr>cx := int x - \<bar>int x - scols\<bar>,
                               coloff := \<bar>int x - scols\<bar>, cy := 0, rowoff := cur\<rparr>
                        else s\<lparr>cx := int x, coloff := 0, cy := 0, rowoff := cur\<rparr>))
             | None \<Rightarrow>
                 search_rows n scols term
                   (if cur + 1 = int (numrows s) then 0 else cur + 1)
                   (s\<lparr>cx := 0, coloff := 0\<rparr>)))"

text \<open>\<^verbatim>\<open>search_lua\<close> with a search term: the number that is pushed, and the editor.\<close>

definition search_lua :: "string \<Rightarrow> editorConfig \<Rightarrow> (int \<times> editorConfig) option" where
  "search_lua term E =
     (case current E of
        None \<Rightarrow> None
      | Some saved \<Rightarrow>
          (case editorMoveCursor (screenrows E) (screencols E) ARROW_RIGHT saved of
             None \<Rightarrow> None
           | Some s1 \<Rightarrow>
               (case search_rows (numrows s1) (screencols E) term (cy s1 + rowoff s1) s1 of
                  None \<Rightarrow> None
                | Some (Some match_len, s2) \<Rightarrow>
                    Some (match_len, E\<lparr>files := (files E)[current_file E := s2]\<rparr>)
                | Some (None, s2) \<Rightarrow>
                    (case editorSetStatusMessage True ''No match found''
                            (E\<lparr>files := (files E)[current_file E := s2]\<rparr>) of
                       None \<Rightarrow> None
                     | Some E1 \<Rightarrow>
                         (case current E1 of
                            None \<Rightarrow> None
                          | Some s3 \<Rightarrow>
                              Some (0, E1\<lparr>files := (files E1)[current_file E1 :=
                                           s3\<lparr>cx := cx saved, cy := cy saved,
                                              coloff := coloff saved,
                                              rowoff := rowoff saved\<rparr>]\<rparr>))))))"

subsection \<open>Saving and loading\<close>

text \<open>Decimal digits of a number, for \<^verbatim>\<open>%d\<close>.\<close>

function decimal :: "nat \<Rightarrow> string" where
  "decimal n = (if n < 10 then [char_of (48 + n)] else decimal (n div 10) @ [char_of (48 + n mod 10)])"
  by pat_completeness auto
termination
  by (relation "measure id") auto

declare decimal.simps [simp del]

text \<open>
  What the file system answers to \<^verbatim>\<open>open\<close>, \<^verbatim>\<open>ftruncate\<close> and \<^verbatim>\<open>write\<close> in \<^verbatim>\<open>save_lua\<close>:
  a failure of one of them (with the text of \<^verbatim>\<open>strerror(errno)\<close>), or success.
\<close>

datatype save_io = OpenFailed string | TruncateFailed string | WriteFailed string | Written

text \<open>
  \<^verbatim>\<open>save_lua\<close> with an optional path: the return value, the editor, and the bytes that the
  file holds after \<^verbatim>\<open>ftruncate(fd, len)\<close> and \<^verbatim>\<open>write(fd, buf, len)\<close> when both succeed.
\<close>

definition save_lua ::
  "script \<Rightarrow> save_io \<Rightarrow> string option \<Rightarrow> editorConfig \<Rightarrow> (int \<times> editorConfig \<times> string option) option" where
  "save_lua lua io path E =
     (case current E of
        None \<Rightarrow> None
      | Some s0 \<Rightarrow>
          let s = (case path of None \<Rightarrow> s0 | Some p \<Rightarrow> s0\<lparr>filename := Some p\<rparr>);
              E0 = E\<lparr>files := (files E)[current_file E := s]\<rparr> in
          case filename s of
            None \<Rightarrow>
              map_option (\<lambda>E1. (0, E1, None)) (editorSetStatusMessage True ''No filename is set!'' E0)
          | Some name \<Rightarrow>
              (case editorRowsToString s of
                 None \<Rightarrow> None
               | Some (buf, len) \<Rightarrow>
                   (case io of
                      Written \<Rightarrow>
                        (case editorSetStatusMessage True
                                (decimal (nat len) @ '' bytes written to '' @ name)
                                (E0\<lparr>files := (files E0)[current_file E0 := s\<lparr>dirty := 0\<rparr>]\<rparr>) of
                           None \<Rightarrow> None
                         | Some E1 \<Rightarrow>
                             map_option (\<lambda>E2. (0, E2, Some (take (nat len) buf)))
                               (call_lua lua ''on_saved'' name E1))
                    | OpenFailed err \<Rightarrow>
                        map_option (\<lambda>E1. (1, E1, None))
                          (editorSetStatusMessage True (''Can't save! I/O error: '' @ err) E0)
                    | TruncateFailed err \<Rightarrow>
                        map_option (\<lambda>E1. (1, E1, None))
                          (editorSetStatusMessage True (''Can't save! I/O error: '' @ err) E0)
                    | WriteFailed err \<Rightarrow>
                        map_option (\<lambda>E1. (1, E1, None))
                          (editorSetStatusMessage True (''Can't save! I/O error: '' @ err) E0))))"

text \<open>\<^verbatim>\<open>getline\<close>: the lines of a file, each with its newline if it has one.\<close>

fun getlines :: "string \<Rightarrow> string \<Rightarrow> string list" where
  "getlines [] line = (if line = [] then [] else [line])"
| "getlines (c # cs) line =
     (if c = CHR 0x0A then (line @ [c]) # getlines cs [] else getlines cs (line @ [c]))"

text \<open>The loop of \<^verbatim>\<open>editorOpen\<close>: a newline or carriage return at the end of a line is cut.\<close>

fun load_lines :: "string list \<Rightarrow> fileState \<Rightarrow> fileState option" where
  "load_lines [] s = Some s"
| "load_lines (l # ls) s =
     (case editorInsertRow s (int (numrows s))
             (if l \<noteq> [] \<and> (last l = CHR 0x0A \<or> last l = CHR 0x0D) then butlast l else l) of
        None \<Rightarrow> None
      | Some s1 \<Rightarrow> load_lines ls s1)"

text \<open>What \<^verbatim>\<open>fopen(filename, "r")\<close> answers: no such file, another error, or the bytes of the file.\<close>

datatype fopen_io = NoEntry | OpenError | Opened string

datatype open_outcome = Exits int | Returns int editorConfig

text \<open>\<^verbatim>\<open>editorOpen(filename)\<close> with a file name.\<close>

definition editorOpen :: "script \<Rightarrow> fopen_io \<Rightarrow> string \<Rightarrow> editorConfig \<Rightarrow> open_outcome option" where
  "editorOpen lua io name E =
     (case current E of
        None \<Rightarrow> None
      | Some s0 \<Rightarrow>
          let s = s0\<lparr>row := [], dirty := 0, cx := 0, cy := 0, rowoff := 0, coloff := 0,
                     markx := -1, marky := -1, numrows := 0, filename := Some name\<rparr>;
              E0 = E\<lparr>files := (files E)[current_file E := s]\<rparr> in
          case io of
            OpenError \<Rightarrow> Some (Exits 1)
          | NoEntry \<Rightarrow> map_option (Returns 1) (call_lua lua ''on_loaded'' name E0)
          | Opened bytes \<Rightarrow>
              (case load_lines (getlines bytes []) s of
                 None \<Rightarrow> None
               | Some s1 \<Rightarrow>
                   map_option (Returns 0)
                     (call_lua lua ''on_loaded'' name
                        (E0\<lparr>files := (files E0)[current_file E0 := s1\<lparr>dirty := 0\<rparr>]\<rparr>))))"

subsection \<open>Concrete buffers and settings\<close>

text \<open>The buffer that \<^verbatim>\<open>create_buffer_lua\<close> makes.\<close>

definition new_buffer :: fileState where
  "new_buffer =
     \<lparr>cx = 0, cy = 0, markx = -1, marky = -1, rowoff = 0, coloff = 0, numrows = 0, row = [],
      dirty = 0, filename = None, syntax_cfg = None, tab_size = 8\<rparr>"

text \<open>A syntax with C's comment delimiters, a few keywords, and both highlight flags.\<close>

definition c_syntax :: editorSyntax where
  "c_syntax =
     \<lparr>keyword_list = [''if'', ''else'', ''while'', ''return'', ''int|'', ''char|''],
      singleline_comment_start = ''//'', multiline_comment_start = ''/*'',
      multiline_comment_end = ''*/'',
      flags = or HL_HIGHLIGHT_STRINGS HL_HIGHLIGHT_NUMBERS\<rparr>"

text \<open>
  The same with two keywords of two bytes. With a longer keyword the comparison by
  \<^verbatim>\<open>memcmp\<close> reads behind the end of a short row such as \<open>a+b\<close> or \<open>cc\<close>.
\<close>

definition short_syntax :: editorSyntax where
  "short_syntax = c_syntax\<lparr>keyword_list := [''if'', ''do'']\<rparr>"

text \<open>A row of plain bytes (no TAB), as \<^verbatim>\<open>editorUpdateRow\<close> leaves it without a syntax.\<close>

definition text_row :: "int \<Rightarrow> string \<Rightarrow> erow" where
  "text_row i cs =
     \<lparr>idx = i, chars = cs, render = cs, hl = replicate (length cs) HL_NORMAL, hl_oc = False\<rparr>"

text \<open>The one-row buffer \<open>hello world\<close> with the cursor at column \<open>x\<close> and the mark at column \<open>mx\<close>.\<close>

definition hello_world :: "int \<Rightarrow> int \<Rightarrow> fileState" where
  "hello_world x mx =
     new_buffer\<lparr>numrows := 1, row := [text_row 0 ''hello world''], dirty := 1,
                cx := x, markx := mx, marky := 0\<rparr>"

text \<open>
  The editor after its start without a file, on a terminal of 24 lines and 80 columns: the
  \<^verbatim>\<open>*Messages*\<close> buffer and an empty buffer, which is the current one.
\<close>

definition fresh_editor :: editorConfig where
  "fresh_editor =
     \<lparr>screenrows = 22, screencols = 80,
      files = [new_buffer\<lparr>filename := Some ''*Messages*''\<rparr>, new_buffer],
      current_file = 1, statusmsg = [], statusmsg_size = 80\<rparr>"

text \<open>That editor after a newline is typed: one empty row, and the cursor on the line below it.\<close>

definition after_enter :: editorConfig where
  "after_enter =
     fresh_editor\<lparr>files := [new_buffer\<lparr>filename := Some ''*Messages*''\<rparr>,
                              new_buffer\<lparr>numrows := 1, row := [text_row 0 []], dirty := 1, cy := 1\<rparr>]\<rparr>"

subsection \<open>The run of the loop on a row\<close>





subsection \<open>Positions in the document\<close>








definition same_doc :: "fileState \<Rightarrow> fileState \<Rightarrow> bool" where
  "same_doc s s' \<longleftrightarrow>
     row s' = row s \<and> numrows s' = numrows s \<and> markx s' = markx s \<and> marky s' = marky s"

text \<open>
  The cells of a row as \<^verbatim>\<open>at()\<close> reads them, one for every place of the cursor in the row,
  the cells of the document row after row, and the cells from one position to another in the
  order of the document, both included.
\<close>

definition row_cells :: "erow \<Rightarrow> string" where
  "row_cells r =
     map (\<lambda>x. if x < length (render r) then render r ! x else CHR 0x0A) [0..<Suc (length (chars r))]"

definition doc_cells :: "erow list \<Rightarrow> string" where
  "doc_cells rows = concat (map row_cells rows)"


subsection \<open>Rows in order, and a row highlighted again\<close>

text \<open>
  Between two operations \<open>numrows\<close> is the number of rows and every row holds its own index
  (\<^verbatim>\<open>editorInsertRow\<close> and \<^verbatim>\<open>editorDelRow\<close> renumber the rows behind the change).
\<close>

definition rows_in_order :: "fileState \<Rightarrow> bool" where
  "rows_in_order s \<longleftrightarrow>
     numrows s = length (row s) \<and> map idx (row s) = map int [0..<length (row s)]"

text \<open>What \<^verbatim>\<open>editorUpdateSyntax\<close> asks about the row before row \<open>k\<close> at its start.\<close>

definition prev_open :: "editorSyntax \<Rightarrow> fileState \<Rightarrow> nat \<Rightarrow> bool option" where
  "prev_open sy s k =
     (if 0 < idx (row s ! k) then editorRowHasOpenComment sy (row s) (nat (idx (row s ! k) - 1))
      else Some False)"

text \<open>
  Row \<open>k\<close> of \<open>s'\<close> carries the tags that the loop gives to the rendered row \<open>k\<close> of \<open>s\<close> when it
  starts inside a comment (\<open>inc\<close>) or outside.
\<close>

definition rehighlighted :: "editorSyntax \<Rightarrow> fileState \<Rightarrow> fileState \<Rightarrow> nat \<Rightarrow> bool \<Rightarrow> bool" where
  "rehighlighted sy s s' k inc \<longleftrightarrow>
     map_option fst (highlight_row sy (render (row s ! k)) inc) = Some (hl (row s' ! k))"

text \<open>
  What a call \<^verbatim>\<open>editorUpdateSyntax(&row[k])\<close> that returns has done: the rows before \<open>k\<close> and
  all rendered rows are as they were, row \<open>k\<close> is highlighted again, and so is every row behind
  a run of rows, from \<open>k\<close> on, whose open-comment state has changed.
\<close>

definition propagated :: "editorSyntax \<Rightarrow> fileState \<Rightarrow> nat \<Rightarrow> fileState \<Rightarrow> bool" where
  "propagated sy s k s' \<longleftrightarrow>
     rows_in_order s' \<and> syntax_cfg s' = Some sy \<and> length (row s') = length (row s)
     \<and> k < length (row s)
     \<and> (\<forall>i<k. row s' ! i = row s ! i)
     \<and> (\<forall>i. render (row s' ! i) = render (row s ! i))
     \<and> (\<exists>inc. prev_open sy s k = Some inc \<and> rehighlighted sy s s' k inc)
     \<and> (\<forall>j. k \<le> j \<longrightarrow> Suc j < length (row s) \<longrightarrow>
            (\<forall>i. k \<le> i \<and> i \<le> j \<longrightarrow> hl_oc (row s' ! i) \<noteq> hl_oc (row s ! i)) \<longrightarrow>
            rehighlighted sy s s' (Suc j) (hl_oc (row s' ! j)))"

subsection \<open>A buffer apart from its rows, and scripts that leave the buffer alone\<close>

definition no_rows :: "fileState \<Rightarrow> fileState" where
  "no_rows s = s\<lparr>row := []\<rparr>"

text \<open>
  The callbacks \<^verbatim>\<open>on_saved\<close> and \<^verbatim>\<open>on_loaded\<close> are Lua functions of the user and may call
  every primitive. The statements about saving and loading are for callbacks that leave the
  dirty counter and the name of the current buffer as they find them.
\<close>

definition callback_keeps_buffer :: "script \<Rightarrow> string \<Rightarrow> bool" where
  "callback_keeps_buffer lua fn \<longleftrightarrow>
     (\<forall>f arg E r E'. lua fn = Some f \<longrightarrow> f arg E = Some (r, E') \<longrightarrow>
        map_option (\<lambda>s. (dirty s, filename s)) (current E')
          = map_option (\<lambda>s. (dirty s, filename s)) (current E))"

text \<open>A script whose callbacks \<^verbatim>\<open>on_saved\<close> and \<^verbatim>\<open>on_loaded\<close> do nothing.\<close>

definition quiet_script :: script where
  "quiet_script fn =
     (if fn = ''on_saved'' \<or> fn = ''on_loaded'' then Some (\<lambda>arg E. Some (None, E)) else None)"

subsection \<open>More concrete buffers\<close>

text \<open>An unnamed buffer with the rows \<open>a\<close> and \<open>b\<close>, and the editor with this buffer.\<close>

definition ab_buffer :: fileState where
  "ab_buffer = new_buffer\<lparr>numrows := 2, row := [text_row 0 ''a'', text_row 1 ''b''], dirty := 2\<rparr>"

definition ab_editor :: editorConfig where
  "ab_editor = fresh_editor\<lparr>files := [new_buffer\<lparr>filename := Some ''*Messages*''\<rparr>, ab_buffer]\<rparr>"

text \<open>The rows \<open>hello world\<close> and \<open>next\<close>, the cursor at (6,0) and the mark at (11,0).\<close>

definition hello_world_next :: fileState where
  "hello_world_next =
     new_buffer\<lparr>numrows := 2, row := [text_row 0 ''hello world'', text_row 1 ''next''], dirty := 2,
                cx := 6, markx := 11, marky := 0\<rparr>"

text \<open>
  Three rows with a comment that is open over two line ends, as they are before the syntax
  is set (no tags, no open comment), and as they are highlighted.
\<close>

definition comment_rows :: fileState where
  "comment_rows =
     new_buffer\<lparr>numrows := 3,
                row := [text_row 0 ''/* open'', text_row 1 ''still in'', text_row 2 ''done */ code''],
                syntax_cfg := Some short_syntax\<rparr>"

definition comment_rows_done :: fileState where
  "comment_rows_done =
     comment_rows\<lparr>row :=
       [\<lparr>idx = 0, chars = ''/* open'', render = ''/* open'',
         hl = replicate 7 HL_MLCOMMENT, hl_oc = True\<rparr>,
        \<lparr>idx = 1, chars = ''still in'', render = ''still in'',
         hl = replicate 8 HL_MLCOMMENT, hl_oc = True\<rparr>,
        \<lparr>idx = 2, chars = ''done */ code'', render = ''done */ code'',
         hl = replicate 7 HL_MLCOMMENT @ [HL_KEYWORD1, HL_NORMAL, HL_NORMAL, HL_NORMAL, HL_NORMAL],
         hl_oc = False\<rparr>]\<rparr>"


section \<open>Tab expansion\<close>

text \<open>
  After the expansion of a TAB the next byte of \<open>render\<close> is at a column \<open>idx\<close> with
  \<open>(idx + 1) mod tab_size = 0\<close>: one column before a multiple of \<open>tab_size\<close>.
\<close>

lemma pad_tab_aligned: "0 < ts \<Longrightarrow> (length (pad_tab ts out) + 1) mod ts = 0"
proof (induction ts out rule: pad_tab.induct)
  case (1 ts out)
  show ?case
  proof (cases "(length out + 1) mod ts \<noteq> 0")
    case True
    then have "pad_tab ts out = pad_tab ts (out @ [CHR '' ''])"
      using 1(2) by (subst pad_tab.simps) simp
    then show ?thesis using 1 True by simp
  next
    case False
    then have "pad_tab ts out = out" by (subst pad_tab.simps) simp
    then show ?thesis using False by simp
  qed
qed

text \<open>
  Claim C2 says that a TAB is expanded to the next column that is a multiple of \<open>tab_size\<close>:
  eight spaces for a TAB at column 0 when \<open>tab_size = 8\<close>, and spaces up to column 8 for a TAB
  at column 3. The loop tests \<open>idx + 1\<close> where it means \<open>idx\<close>: the TAB at column 0
  gives seven spaces, the TAB at column 3 gives four, and the byte behind the TAB is at
  column 7 both times.
\<close>

theorem tab_stops_one_column_short:
  "render_of 8 [TAB, CHR ''x''] = Some (replicate 7 (CHR '' '') @ ''x'')
   \<and> render_of 8 (''abc'' @ [TAB, CHR ''x'']) = Some (''abc'' @ replicate 4 (CHR '' '') @ ''x'')"
  by code_simp


section \<open>The tokenizer\<close>

text \<open>
  Claim C10 says that \<^verbatim>\<open>editorUpdateSyntax\<close> writes only the cells \<open>0 .. rsize - 1\<close> of
  \<open>hl\<close>, also in the string-escape branch. For the row of two bytes \<open>"\<close> and \<open>\\<close>, with
  string highlighting on, the escape branch stores \<^verbatim>\<open>hl[i + 1]\<close> with \<open>i + 1 = rsize = 2\<close>.
\<close>

theorem escape_at_end_of_row_writes_past_hl:
  "tokenize c_syntax [CHR 0x22, CHR 0x5C] (tok_init [CHR 0x22, CHR 0x5C] False)
     = Inl (HlWriteOutOfBounds (length [CHR 0x22, CHR 0x5C]))"
  by code_simp


text \<open>
  With the keywords of \<open>c_syntax\<close> the keyword loop compares five bytes at the start of the
  row \<open>a+b\<close>, which has four with its terminator.
\<close>

lemma keyword_comparison_reads_behind_a_short_row:
  "tokenize c_syntax ''a+b'' (tok_init ''a+b'' False) = Inl (RenderReadPastEnd 4)"
  by code_simp


subsection \<open>What a pass of the loop writes\<close>



lemma on_store_Finished:
  "on_store w k = Finished h b \<Longrightarrow> \<exists>h1. w = Inr h1 \<and> k h1 = Finished h b"
  by (cases w) (simp_all add: on_store_def)

















text \<open>
  With an empty comment end delimiter the pass inside a comment tags its byte and stays at
  it: the \<open>x\<close> of \<open>/*x\<close> then reaches the final step with \<^verbatim>\<open>HL_MLCOMMENT\<close> in its cell.
\<close>

lemma empty_comment_end_keeps_the_comment_tag:
  "tokenize (short_syntax\<lparr>multiline_comment_end := []\<rparr>) ''/*x'' (tok_init ''/*x'' False)
     = Inr ([HL_MLCOMMENT, HL_MLCOMMENT, HL_MLCOMMENT], True)"
  by code_simp

section \<open>Cursor motion\<close>

text \<open>
  Claim C4 says that after any single cursor motion \<open>0 \<le> cy < screenrows\<close> (with the bounds on
  \<open>cx\<close>, \<open>coloff\<close> and \<open>rowoff\<close>). On a screen of two text lines, in a buffer of three rows,
  two steps down and one step up put the cursor on the top line of the scrolled screen
  (\<open>cy = 0\<close>, \<open>rowoff = 1\<close>, column 0); \<^verbatim>\<open>ARROW_LEFT\<close> then decrements \<open>cy\<close> where
  \<^verbatim>\<open>ARROW_UP\<close> decrements \<open>rowoff\<close>, and \<open>cy\<close> is \<open>-1\<close>.
\<close>

theorem cursor_left_at_top_of_scrolled_screen:
  "do { s0 \<leftarrow> load_lines [''a\<newline>'', ''b\<newline>'', ''c\<newline>''] new_buffer;
        s1 \<leftarrow> editorMoveCursor 2 80 ARROW_DOWN s0;
        s2 \<leftarrow> editorMoveCursor 2 80 ARROW_DOWN s1;
        s3 \<leftarrow> editorMoveCursor 2 80 ARROW_UP s2;
        s4 \<leftarrow> editorMoveCursor 2 80 ARROW_LEFT s3;
        Some ((cx s3, cy s3, coloff s3, rowoff s3), (cx s4, cy s4, coloff s4, rowoff s4)) }
     = Some ((0, 0, 0, 1), (1, -1, 0, 1))"
  by code_simp


section \<open>Search\<close>

text \<open>
  Claim C9 says that a search for a pattern that occurs in no row returns 0 and leaves the
  cursor where it was, for every buffer. After a newline is typed into the empty buffer the
  cursor is on the line behind the only row; \<^verbatim>\<open>search_lua\<close> then reads
  \<^verbatim>\<open>row[current].rsize\<close> with \<open>current = numrows = 1\<close>, behind the end of the array of rows,
  where every other function tests \<^verbatim>\<open>filerow >= numrows\<close> first.
\<close>

theorem search_reads_behind_the_last_row:
  "on_current (\<lambda>sr sc. editorInsertChar sr sc (CHR 0x0A)) fresh_editor = Some after_enter
   \<and> search_lua ''x'' after_enter = None"
  by code_simp

section \<open>Selection\<close>

subsection \<open>The order of the document\<close>

lemma same_doc_refl [simp]: "same_doc s s"
  by (simp add: same_doc_def)




















subsection \<open>The cells of the document\<close>

lemma length_row_cells [simp]: "length (row_cells r) = Suc (length (chars r))"
  by (simp add: row_cells_def)

text \<open>In rows without a TAB the cells are the bytes of the rows, each row with a newline.\<close>

lemma row_cells_plain:
  assumes "render r = chars r"
  shows "row_cells r = chars r @ [CHR 0x0A]"
proof -
  have "map (\<lambda>x. if x < length (chars r) then chars r ! x else CHR 0x0A) [0..<length (chars r)]
          = map ((!) (chars r)) [0..<length (chars r)]"
    by (rule map_cong) simp_all
  then show ?thesis unfolding row_cells_def assms by (simp add: map_nth)
qed

lemma doc_cells_plain:
  assumes "\<forall>r \<in> set rows. render r = chars r"
  shows "doc_cells rows = concat (map (\<lambda>r. chars r @ [CHR 0x0A]) rows)"
  using assms by (induction rows) (simp_all add: doc_cells_def row_cells_plain)









subsection \<open>The selection of the scenario\<close>

text \<open>
  Claim C1 says that with the row \<open>hello world\<close>, the cursor at (6,0) and the mark at (11,0) the
  selection is \<open>world\<close>. The selection takes the cell at the mark with it, which is behind the
  end of the row and reads as a newline: it is \<open>world\<close> and a newline, six bytes.
\<close>

theorem selection_includes_the_mark_cell:
  "map_option fst (selection_lua 22 80 (hello_world 6 11)) = Some (Some ''world\<newline>'')"
  by code_simp

text \<open>
  \<^verbatim>\<open>cut_selection\<close> steps to the right and deletes to the left once for every byte of the
  selection. In the last row the sixth step to the right cannot leave the end of the row, and
  the sixth backspace deletes the blank before \<open>world\<close>, a byte that is not selected; on a
  screen of one text line the step scrolls instead and the blank stays.
\<close>

lemma cut_on_the_last_row_depends_on_the_screen:
  "map_option (map chars \<circ> row) (cut_selection_lua 22 80 (hello_world 6 11)) = Some [''hello'']
   \<and> map_option (map chars \<circ> row) (cut_selection_lua 1 80 (hello_world 6 11)) = Some [''hello '']"
  by code_simp

lemmas eval_defs =
  selection_lua_def get_selection_def selection_walk.simps at_def
  editorMoveCursor_def move_switch_def fix_cx_def hello_world_def new_buffer_def text_row_def
  row_or_null_def deref_def Let_def strrev_def c_string_def NUL_def
  cut_selection_lua_def delete_lua_def editorRowDelChar_def editorUpdateRow_def
  editorUpdateSyntax.simps render_of_def TAB_def upd_row_def editorRowAppendString_def editorDelRow_def

text \<open>
  Claim C1 as the code has it: on a screen of at least 12 columns, with the row
  \<open>hello world\<close>, the cursor at (6,0) and the mark at (11,0), \<^verbatim>\<open>selection\<close> returns \<open>world\<close>
  and a newline and leaves the buffer as it is, and \<^verbatim>\<open>cut_selection\<close> clears the mark to
  (-1,-1). With a row \<open>next\<close> below, the selection is the same and \<^verbatim>\<open>cut_selection\<close> removes
  the selected bytes and no other: it leaves the one row \<open>hello next\<close>.
\<close>

theorem selection_and_cut_hello_world:
  assumes "12 \<le> sc"
  shows "selection_lua sr sc (hello_world 6 11) = Some (Some ''world\<newline>'', hello_world 6 11)
         \<and> (\<exists>s'. cut_selection_lua sr sc (hello_world 6 11) = Some s'
                   \<and> markx s' = -1 \<and> marky s' = -1)
         \<and> selection_lua sr sc hello_world_next = Some (Some ''world\<newline>'', hello_world_next)
         \<and> (\<exists>s'. cut_selection_lua sr sc hello_world_next = Some s'
                   \<and> map chars (row s') = [''hello next''] \<and> markx s' = -1 \<and> marky s' = -1)"
proof (cases "sr = 1")
  case True
  then show ?thesis using assms by (simp add: eval_defs hello_world_next_def numeral_eq_Suc)
next
  case False
  then show ?thesis using assms by (simp add: eval_defs hello_world_next_def numeral_eq_Suc)
qed

text \<open>The selection and the cut on a screen of 22 text lines and 80 columns.\<close>

theorem selection_and_cut_hello_world_witness:
  "selection_lua 22 80 (hello_world 6 11) = Some (Some ''world\<newline>'', hello_world 6 11)
   \<and> (\<exists>s'. cut_selection_lua 22 80 (hello_world 6 11) = Some s'
             \<and> markx s' = -1 \<and> marky s' = -1)
   \<and> selection_lua 22 80 hello_world_next = Some (Some ''world\<newline>'', hello_world_next)
   \<and> (\<exists>s'. cut_selection_lua 22 80 hello_world_next = Some s'
             \<and> map chars (row s') = [''hello next''] \<and> markx s' = -1 \<and> marky s' = -1)"
  using selection_and_cut_hello_world [of 80 22] by simp

subsection \<open>The selection in both directions\<close>




section \<open>The buffer as one string, and saving\<close>

lemma rows_copy_concat: "rows_copy rs = concat (map (\<lambda>r. chars r @ [CHR 0x0A]) rs)"
  by (induction rs) simp_all

lemma rows_totlen_length: "rows_totlen rs = int (length (rows_copy rs))"
  by (induction rs) simp_all

lemma editorRowsToString_filename:
  "editorRowsToString (s\<lparr>filename := f\<rparr>) = editorRowsToString s"
  by (simp add: editorRowsToString_def)

text \<open>
  Claim C7 says that \<^verbatim>\<open>editorRowsToString\<close> joins the rows with newlines and has no newline
  at the end. The copy loop puts a newline behind every row, the last one too: the rows \<open>a\<close>
  and \<open>b\<close> give the four bytes \<open>a\<close>, newline, \<open>b\<close>, newline.
\<close>

theorem rows_to_string_ends_with_newline:
  "editorRowsToString (new_buffer\<lparr>numrows := 2, row := [text_row 0 ''a'', text_row 1 ''b'']\<rparr>)
     = Some (''a\<newline>b\<newline>'', 4)"
  by code_simp

text \<open>
  Claim C7 as the code has it: \<^verbatim>\<open>editorRowsToString\<close> returns the bytes of every row, each
  followed by a newline (the last row too); the length that it returns is the number of these
  bytes; and a save that succeeds writes exactly these bytes.
\<close>

theorem rows_to_string_newline_after_every_row:
  assumes "current E = Some s" and "editorRowsToString s = Some (buf, len)"
  shows "buf = concat (map (\<lambda>r. chars r @ [CHR 0x0A]) (take (numrows s) (row s)))
         \<and> len = int (length buf)
         \<and> (\<forall>lua path rc E' out. save_lua lua Written path E = Some (rc, E', Some out) \<longrightarrow> out = buf)"
proof -
  have b: "buf = rows_copy (take (numrows s) (row s))"
    and l: "len = rows_totlen (take (numrows s) (row s))"
    using assms(2) by (auto simp: editorRowsToString_def split: if_splits)
  have len: "len = int (length buf)" using b l by (simp add: rows_totlen_length)
  have save: "out = buf" if "save_lua lua Written path E = Some (rc, E', Some out)"
    for lua path rc E' out
    using that assms len
    by (auto simp: save_lua_def Let_def editorRowsToString_filename split: option.splits)
  show ?thesis using b len save by (simp add: rows_copy_concat)
qed

text \<open>The buffer with the rows \<open>a\<close> and \<open>b\<close>, saved as \<open>t\<close>.\<close>

theorem rows_to_string_newline_after_every_row_witness:
  "editorRowsToString ab_buffer = Some (''a\<newline>b\<newline>'', 4)
   \<and> map_option (snd \<circ> snd) (save_lua quiet_script Written (Some ''t'') ab_editor)
       = Some (Some ''a\<newline>b\<newline>'')"
proof -
  have c: "current ab_editor = Some ab_buffer"
    by (simp add: current_def ab_editor_def fresh_editor_def)
  have r: "editorRowsToString ab_buffer = Some (''a\<newline>b\<newline>'', 4)" by code_simp
  have "(case save_lua quiet_script Written (Some ''t'') ab_editor of
           Some (rc, E1, Some out) \<Rightarrow> True | _ \<Rightarrow> False)"
    by code_simp
  then obtain rc E1 out where
    sv: "save_lua quiet_script Written (Some ''t'') ab_editor = Some (rc, E1, Some out)"
    by (auto split: option.splits prod.splits)
  from rows_to_string_newline_after_every_row [OF c r] sv have "out = ''a\<newline>b\<newline>''"
    by blast
  then show ?thesis using r sv by simp
qed


section \<open>The dirty counter\<close>

subsection \<open>The highlighter leaves everything but the rows alone\<close>

lemma no_rows_upd_row [simp]: "no_rows (upd_row k f s) = no_rows s"
  by (simp add: no_rows_def upd_row_def)

lemma no_rows_row_update [simp]: "no_rows (s\<lparr>row := r\<rparr>) = no_rows s"
  by (simp add: no_rows_def)

lemma no_rows_fields:
  assumes "no_rows s' = no_rows s"
  shows "dirty s' = dirty s" "numrows s' = numrows s" "cx s' = cx s" "cy s' = cy s"
    "coloff s' = coloff s" "rowoff s' = rowoff s" "markx s' = markx s" "marky s' = marky s"
    "filename s' = filename s" "syntax_cfg s' = syntax_cfg s" "tab_size s' = tab_size s"
proof -
  have "dirty (no_rows s') = dirty (no_rows s)" "numrows (no_rows s') = numrows (no_rows s)"
    "cx (no_rows s') = cx (no_rows s)" "cy (no_rows s') = cy (no_rows s)"
    "coloff (no_rows s') = coloff (no_rows s)" "rowoff (no_rows s') = rowoff (no_rows s)"
    "markx (no_rows s') = markx (no_rows s)" "marky (no_rows s') = marky (no_rows s)"
    "filename (no_rows s') = filename (no_rows s)" "syntax_cfg (no_rows s') = syntax_cfg (no_rows s)"
    "tab_size (no_rows s') = tab_size (no_rows s)"
    using assms by simp_all
  then show "dirty s' = dirty s" "numrows s' = numrows s" "cx s' = cx s" "cy s' = cy s"
    "coloff s' = coloff s" "rowoff s' = rowoff s" "markx s' = markx s" "marky s' = marky s"
    "filename s' = filename s" "syntax_cfg s' = syntax_cfg s" "tab_size s' = tab_size s"
    by (simp_all add: no_rows_def)
qed

lemma editorUpdateSyntax_no_rows:
  assumes "editorUpdateSyntax s k = Some s'"
  shows "no_rows s' = no_rows s"
proof (rule editorUpdateSyntax.raw_induct
         [where P = "\<lambda>s k s'. no_rows s' = no_rows s", OF _ assms], goal_cases)
  case (1 f s k s')
  from 1(2) show ?case
    by (auto split: if_splits option.splits simp: bind_eq_Some_conv dest!: 1(1))
qed

lemma editorUpdateRow_no_rows:
  "editorUpdateRow s k = Some s' \<Longrightarrow> no_rows s' = no_rows s"
  by (auto simp: editorUpdateRow_def split: if_splits option.splits
      dest!: editorUpdateSyntax_no_rows)

lemma upd_row_fields [simp]:
  "dirty (upd_row k f s) = dirty s" "numrows (upd_row k f s) = numrows s"
  "filename (upd_row k f s) = filename s" "length (row (upd_row k f s)) = length (row s)"
  by (simp_all add: upd_row_def)

lemma editorUpdateRow_dirty: "editorUpdateRow s k = Some s' \<Longrightarrow> dirty s' = dirty s"
  by (auto dest!: editorUpdateRow_no_rows dest: no_rows_fields(1))

lemma editorInsertRow_dirty:
  assumes "editorInsertRow s a bytes = Some s'" and "a \<le> int (numrows s)"
  shows "dirty s' = dirty s + 1" and "numrows s' = numrows s + 1"
  using assms
  by (auto simp: editorInsertRow_def split: if_splits option.splits
      dest!: editorUpdateRow_no_rows dest: no_rows_fields)

lemma editorDelRow_dirty:
  "editorDelRow s a = Some s' \<Longrightarrow> a < int (numrows s) \<Longrightarrow> dirty s' = dirty s + 1"
  by (auto simp: editorDelRow_def split: if_splits)

lemma editorRowInsertChar_dirty:
  "editorRowInsertChar s k a c = Some s' \<Longrightarrow> dirty s' = dirty s + 1"
  by (auto simp: editorRowInsertChar_def split: if_splits option.splits
      dest!: editorUpdateRow_no_rows dest: no_rows_fields)

lemma editorRowAppendString_dirty:
  "editorRowAppendString s k bytes = Some s' \<Longrightarrow> dirty s' = dirty s + 1"
  by (auto simp: editorRowAppendString_def split: if_splits option.splits
      dest!: editorUpdateRow_no_rows dest: no_rows_fields)

lemma editorRowDelChar_dirty:
  "editorRowDelChar s k a = Some s' \<Longrightarrow>
     dirty s' = (if 0 \<le> a \<and> a < int (length (chars (row s ! k))) then dirty s + 1 else dirty s)"
  by (auto simp: editorRowDelChar_def split: if_splits option.splits
      dest!: editorUpdateRow_no_rows dest: no_rows_fields)

lemma fill_rows_dirty:
  assumes "fill_rows s filerow = Some s'"
  shows "dirty s \<le> dirty s'"
proof (rule fill_rows.raw_induct [where P = "\<lambda>s filerow s'. dirty s \<le> dirty s'", OF _ assms],
       goal_cases)
  case (1 f s filerow s')
  from 1(2) show ?case
    by (fastforce split: if_splits option.splits dest: 1(1) editorInsertRow_dirty(1))
qed

lemma editorInsertRow_filename:
  "editorInsertRow s a bytes = Some s' \<Longrightarrow> filename s' = filename s"
  by (auto simp: editorInsertRow_def split: if_splits option.splits
      dest!: editorUpdateRow_no_rows dest: no_rows_fields)

lemma editorInsertChar_dirty:
  assumes "editorInsertChar sr sc c s = Some s'" and "c \<noteq> CHR 0x0A"
  shows "dirty s + 2 \<le> dirty s'"
proof -
  from assms obtain s1 s2 where
    f: "(case row_or_null s (rowoff s + cy s) of None \<Rightarrow> fill_rows s (rowoff s + cy s)
         | Some p \<Rightarrow> Some s) = Some s1"
    and i: "editorRowInsertChar s1 (nat (rowoff s + cy s)) (coloff s + cx s) c = Some s2"
    and d: "dirty s' = dirty s2 + 1"
    by (auto simp: editorInsertChar_def Let_def split: if_splits option.splits)
  have "dirty s \<le> dirty s1"
    using f by (auto split: option.splits dest: fill_rows_dirty)
  moreover have "dirty s2 = dirty s1 + 1" using i by (rule editorRowInsertChar_dirty)
  ultimately show ?thesis using d by simp
qed

lemma editorInsertNewline_dirty:
  assumes "editorInsertNewline sr sc s = Some s'" and "rowoff s + cy s \<le> int (numrows s)"
  shows "dirty s' = dirty s + 1"
proof -
  let ?fix = "\<lambda>t. (if cy t = sr - 1 then t\<lparr>rowoff := rowoff t + 1\<rparr>
                   else t\<lparr>cy := cy t + 1\<rparr>)\<lparr>cx := 0, coloff := 0\<rparr>"
  have fx: "dirty (?fix t) = dirty t" for t by simp
  from assms consider
      (ins) a t where "editorInsertRow s a [] = Some t" "a \<le> int (numrows s)" "s' = ?fix t"
    | (split) a bytes t k t' where "editorInsertRow s a bytes = Some t" "a \<le> int (numrows s)"
        "editorUpdateRow (upd_row k (\<lambda>r. r\<lparr>chars := take (nat (coloff s + cx s)) (chars r)\<rparr>) t) k
           = Some t'" "s' = ?fix t'"
    by (auto simp: editorInsertNewline_def Let_def row_or_null_def
        split: if_splits option.splits)
  then show ?thesis
  proof cases
    case ins
    then show ?thesis using editorInsertRow_dirty(1) [OF ins(1,2)] by (simp only: fx)
  next
    case split
    have "dirty t' = dirty t" using editorUpdateRow_dirty [OF split(3)] by simp
    then show ?thesis using editorInsertRow_dirty(1) [OF split(1,2)] split(4) by (simp only: fx)
  qed
qed

lemma delete_lua_dirty:
  assumes "delete_lua sr sc s = Some s'" and "rowoff s + cy s < int (numrows s)"
    and "\<not> (coloff s + cx s = 0 \<and> rowoff s + cy s = 0)"
  shows "dirty s + 1 \<le> dirty s' \<and> dirty s' \<le> dirty s + 3"
proof (cases "coloff s + cx s = 0")
  case True
  have "\<exists>bytes s1 s2. editorRowAppendString s (nat (rowoff s + cy s - 1)) bytes = Some s1
          \<and> editorDelRow s1 (rowoff s + cy s) = Some s2 \<and> dirty s' = dirty s2 + 1"
    using assms True
    by (auto simp: delete_lua_def Let_def row_or_null_def
        split: if_splits option.splits prod.splits) blast+
  then obtain bytes s1 s2 where
    a: "editorRowAppendString s (nat (rowoff s + cy s - 1)) bytes = Some s1"
    and b: "editorDelRow s1 (rowoff s + cy s) = Some s2"
    and d: "dirty s' = dirty s2 + 1"
    by blast
  have n: "numrows s1 = numrows s"
    using a by (auto simp: editorRowAppendString_def split: if_splits option.splits
        dest!: editorUpdateRow_no_rows dest: no_rows_fields(2))
  have "dirty s1 = dirty s + 1" using a by (rule editorRowAppendString_dirty)
  moreover have "dirty s2 = dirty s1 + 1" using b assms(2) n by (simp add: editorDelRow_dirty)
  ultimately show ?thesis using d by simp
next
  case False
  have "\<exists>s1 s4 s5. editorRowDelChar s (nat (rowoff s + cy s)) (coloff s + cx s - 1) = Some s1
          \<and> dirty s4 = dirty s1 \<and> editorUpdateRow s4 (nat (rowoff s + cy s)) = Some s5
          \<and> dirty s' = dirty s5 + 1"
    using assms False
    by (auto simp: delete_lua_def Let_def row_or_null_def
        split: if_splits option.splits) (rule exI, rule conjI [rotated], rule exI, rule conjI, assumption, simp, simp)+
  then obtain s1 s4 s5 where
    a: "editorRowDelChar s (nat (rowoff s + cy s)) (coloff s + cx s - 1) = Some s1"
    and m: "dirty s4 = dirty s1"
    and u: "editorUpdateRow s4 (nat (rowoff s + cy s)) = Some s5"
    and d: "dirty s' = dirty s5 + 1"
    by blast
  have "dirty s5 = dirty s4" using u by (rule editorUpdateRow_dirty)
  moreover have "dirty s \<le> dirty s1 \<and> dirty s1 \<le> dirty s + 1"
    using editorRowDelChar_dirty [OF a] by (simp split: if_splits)
  ultimately show ?thesis using d m by simp
qed

subsection \<open>Status messages and callbacks\<close>

lemma find_messages_Some:
  "find_messages fs n = Some i \<Longrightarrow>
     n \<le> i \<and> i - n < length fs \<and> filename (fs ! (i - n)) = Some ''*Messages*''"
proof (induction fs arbitrary: n)
  case Nil
  then show ?case by simp
next
  case (Cons f fs)
  show ?case
  proof (cases "filename f = Some ''*Messages*''")
    case True
    then show ?thesis using Cons.prems by simp
  next
    case False
    then have "find_messages fs (Suc n) = Some i" using Cons.prems by simp
    from Cons.IH [OF this] show ?thesis by (auto simp: Suc_diff_le)
  qed
qed

lemma status_keeps_current:
  assumes "editorSetStatusMessage log msg E = Some E'" and "current E = Some s"
    and "filename s \<noteq> Some ''*Messages*''"
  shows "current E' = Some s"
proof -
  have c: "current_file E < length (files E)" "files E ! current_file E = s"
    using assms(2) by (auto simp: current_def split: if_splits)
  show ?thesis
  proof (cases "log \<and> find_messages (files E) 0 \<noteq> None")
    case False
    then show ?thesis using assms(1,2)
      by (auto simp: editorSetStatusMessage_def Let_def current_def split: if_splits option.splits)
  next
    case True
    then obtain i where i: "find_messages (files E) 0 = Some i" by auto
    from find_messages_Some [OF i] have "i \<noteq> current_file E" using c assms(3) by auto
    then show ?thesis using assms(1) True i c
      by (auto simp: editorSetStatusMessage_def Let_def current_def on_current_def
          split: if_splits option.splits)
  qed
qed

lemma call_lua_keeps:
  assumes "call_lua lua fn arg E = Some E'" and "current E = Some t"
    and "filename t \<noteq> Some ''*Messages*''" and "callback_keeps_buffer lua fn"
  shows "\<exists>t'. current E' = Some t' \<and> dirty t' = dirty t \<and> filename t' = filename t"
proof (cases "lua fn")
  case None
  then show ?thesis using assms(1) status_keeps_current [OF _ assms(2,3)]
    by (simp add: call_lua_def)
next
  case (Some f)
  then obtain r E1 where f: "f arg E = Some (r, E1)"
    using assms(1) by (auto simp: call_lua_def split: option.splits)
  have "map_option (\<lambda>s. (dirty s, filename s)) (current E1) = Some (dirty t, filename t)"
    using assms(4) Some f assms(2) unfolding callback_keeps_buffer_def by fastforce
  then obtain t' where t': "current E1 = Some t'" "dirty t' = dirty t" "filename t' = filename t"
    by auto
  show ?thesis
  proof (cases r)
    case None
    then show ?thesis using assms(1) Some f t' by (simp add: call_lua_def)
  next
    case (Some err)
    then have "editorSetStatusMessage True (fn @ '' failed '' @ err) E1 = Some E'"
      using assms(1) \<open>lua fn = Some f\<close> f by (simp add: call_lua_def)
    from status_keeps_current [OF this t'(1)] show ?thesis using t' assms(3) by simp
  qed
qed

lemma current_update:
  "current E = Some s \<Longrightarrow> current (E\<lparr>files := (files E)[current_file E := t]\<rparr>) = Some t"
  by (auto simp: current_def split: if_splits)

lemma save_resets_dirty:
  assumes "save_lua lua Written path E = Some (rc, E', out)" and "current E = Some s"
    and "(case path of None \<Rightarrow> filename s | Some p \<Rightarrow> Some p) = Some name"
    and "name \<noteq> ''*Messages*''" and "callback_keeps_buffer lua ''on_saved''"
  shows "rc = 0 \<and> map_option dirty (current E') = Some 0"
proof -
  let ?s = "(case path of None \<Rightarrow> s | Some p \<Rightarrow> s\<lparr>filename := Some p\<rparr>)"
  let ?E0 = "E\<lparr>files := (files E)[current_file E := ?s]\<rparr>"
  have fn: "filename ?s = Some name" using assms(3) by (cases path) simp_all
  have c0: "current ?E0 = Some ?s" using assms(2) by (rule current_update)
  let ?E0' = "?E0\<lparr>files := (files ?E0)[current_file ?E0 := ?s\<lparr>dirty := 0\<rparr>]\<rparr>"
  have c0': "current ?E0' = Some (?s\<lparr>dirty := 0\<rparr>)" using c0 by (rule current_update)
  obtain buf len E1 where
    st: "editorSetStatusMessage True (decimal (nat len) @ '' bytes written to '' @ name) ?E0'
           = Some E1"
    and cl: "call_lua lua ''on_saved'' name E1 = Some E'" and rc: "rc = 0"
    using assms(1,2) fn
    by (auto simp: save_lua_def Let_def split: option.splits)
  have c1: "current E1 = Some (?s\<lparr>dirty := 0\<rparr>)"
    using status_keeps_current [OF st c0'] fn assms(4) by simp
  from call_lua_keeps [OF cl c1 _ assms(5)] fn assms(4) rc show ?thesis by auto
qed

lemma load_lines_filename: "load_lines ls s = Some s' \<Longrightarrow> filename s' = filename s"
  by (induction ls arbitrary: s) (auto split: option.splits dest: editorInsertRow_filename)

lemma open_resets_dirty:
  assumes "editorOpen lua io name E = Some (Returns rc E')"
    and "name \<noteq> ''*Messages*''" and "callback_keeps_buffer lua ''on_loaded''"
  shows "map_option dirty (current E') = Some 0"
proof -
  obtain s0 where s0: "current E = Some s0"
    using assms(1) by (auto simp: editorOpen_def split: option.splits)
  let ?s = "s0\<lparr>row := [], dirty := 0, cx := 0, cy := 0, rowoff := 0, coloff := 0,
                 markx := -1, marky := -1, numrows := 0, filename := Some name\<rparr>"
  let ?E0 = "E\<lparr>files := (files E)[current_file E := ?s]\<rparr>"
  have c0: "current ?E0 = Some ?s" using s0 by (rule current_update)
  show ?thesis
  proof (cases io)
    case NoEntry
    then have cl: "call_lua lua ''on_loaded'' name ?E0 = Some E'"
      using assms(1) s0 by (auto simp: editorOpen_def Let_def)
    from call_lua_keeps [OF cl c0 _ assms(3)] assms(2) show ?thesis by auto
  next
    case OpenError
    then show ?thesis using assms(1) s0 by (simp add: editorOpen_def Let_def)
  next
    case (Opened bytes)
    then obtain s1 where l: "load_lines (getlines bytes []) ?s = Some s1"
      and cl: "call_lua lua ''on_loaded'' name
                 (?E0\<lparr>files := (files ?E0)[current_file ?E0 := s1\<lparr>dirty := 0\<rparr>]\<rparr>) = Some E'"
      using assms(1) s0 by (auto simp: editorOpen_def Let_def split: option.splits)
    have c1: "current (?E0\<lparr>files := (files ?E0)[current_file ?E0 := s1\<lparr>dirty := 0\<rparr>]\<rparr>)
                = Some (s1\<lparr>dirty := 0\<rparr>)"
      using c0 by (rule current_update)
    have "filename s1 = Some name" using load_lines_filename [OF l] by simp
    with call_lua_keeps [OF cl c1 _ assms(3)] assms(2) show ?thesis by auto
  qed
qed

subsection \<open>The counter\<close>

text \<open>
  Claim C5 says that every insert, delete and append adds exactly one to \<open>dirty\<close>.
  \<^verbatim>\<open>editorInsertChar\<close> adds one itself after \<^verbatim>\<open>editorRowInsertChar\<close> has added one: a \<open>!\<close>
  typed at the end of \<open>hello world\<close> takes the counter from 1 to 3.
\<close>

theorem insert_char_counts_twice:
  "map_option dirty (editorInsertChar 22 80 (CHR ''!'') (hello_world 11 (-1))) = Some 3
   \<and> dirty (hello_world 11 (-1)) = 1
   \<and> map_option (map chars \<circ> row) (editorInsertChar 22 80 (CHR ''!'') (hello_world 11 (-1)))
       = Some [''hello world!'']"
  by code_simp

text \<open>
  Claim C5 as the code has it. Each function that changes a row or the array of rows
  (\<^verbatim>\<open>editorRowInsertChar\<close>, \<^verbatim>\<open>editorRowAppendString\<close>, \<^verbatim>\<open>editorInsertRow\<close>,
  \<^verbatim>\<open>editorDelRow\<close>) adds exactly one to \<open>dirty\<close>. The operations at the cursor are made of
  these and add one of their own: typing a byte other than a newline adds at least two,
  a newline adds one, a backspace on a row of the buffer (not at the start of the buffer) adds
  between one and three. A save that succeeds returns 0 and leaves \<open>dirty = 0\<close>, and so does
  loading a file, when the buffer is not named \<^verbatim>\<open>*Messages*\<close> (the status message is typed into
  that buffer) and the callback leaves the counter and the name of the buffer alone.
\<close>

theorem dirty_counter:
  "(editorRowInsertChar s k a c = Some s1 \<longrightarrow> dirty s1 = dirty s + 1)
   \<and> (editorRowAppendString s k bytes = Some s2 \<longrightarrow> dirty s2 = dirty s + 1)
   \<and> (editorInsertRow s a bytes = Some s3 \<longrightarrow> a \<le> int (numrows s) \<longrightarrow> dirty s3 = dirty s + 1)
   \<and> (editorDelRow s a = Some s4 \<longrightarrow> a < int (numrows s) \<longrightarrow> dirty s4 = dirty s + 1)
   \<and> (editorInsertChar sr sc c s = Some s5 \<longrightarrow> c \<noteq> CHR 0x0A \<longrightarrow> dirty s + 2 \<le> dirty s5)
   \<and> (editorInsertNewline sr sc s = Some s6 \<longrightarrow> rowoff s + cy s \<le> int (numrows s) \<longrightarrow>
        dirty s6 = dirty s + 1)
   \<and> (delete_lua sr sc s = Some s7 \<longrightarrow> rowoff s + cy s < int (numrows s) \<longrightarrow>
        \<not> (coloff s + cx s = 0 \<and> rowoff s + cy s = 0) \<longrightarrow>
        dirty s + 1 \<le> dirty s7 \<and> dirty s7 \<le> dirty s + 3)
   \<and> (save_lua lua Written path E = Some (rc, E1, out) \<longrightarrow> current E = Some t \<longrightarrow>
        (case path of None \<Rightarrow> filename t | Some p \<Rightarrow> Some p) = Some name \<longrightarrow>
        name \<noteq> ''*Messages*'' \<longrightarrow> callback_keeps_buffer lua ''on_saved'' \<longrightarrow>
        rc = 0 \<and> map_option dirty (current E1) = Some 0)
   \<and> (editorOpen lua io name E = Some (Returns rc2 E2) \<longrightarrow> name \<noteq> ''*Messages*'' \<longrightarrow>
        callback_keeps_buffer lua ''on_loaded'' \<longrightarrow> map_option dirty (current E2) = Some 0)"
proof (intro conjI impI)
  show "dirty s1 = dirty s + 1" if "editorRowInsertChar s k a c = Some s1"
    using that by (rule editorRowInsertChar_dirty)
  show "dirty s2 = dirty s + 1" if "editorRowAppendString s k bytes = Some s2"
    using that by (rule editorRowAppendString_dirty)
  show "dirty s3 = dirty s + 1" if "editorInsertRow s a bytes = Some s3" "a \<le> int (numrows s)"
    using that by (rule editorInsertRow_dirty(1))
  show "dirty s4 = dirty s + 1" if "editorDelRow s a = Some s4" "a < int (numrows s)"
    using that by (rule editorDelRow_dirty)
  show "dirty s + 2 \<le> dirty s5" if "editorInsertChar sr sc c s = Some s5" "c \<noteq> CHR 0x0A"
    using that by (rule editorInsertChar_dirty)
  show "dirty s6 = dirty s + 1"
    if "editorInsertNewline sr sc s = Some s6" "rowoff s + cy s \<le> int (numrows s)"
    using that by (rule editorInsertNewline_dirty)
  assume d: "delete_lua sr sc s = Some s7" "rowoff s + cy s < int (numrows s)"
    "\<not> (coloff s + cx s = 0 \<and> rowoff s + cy s = 0)"
  from delete_lua_dirty [OF d] show "dirty s + 1 \<le> dirty s7" "dirty s7 \<le> dirty s + 3"
    by simp_all
next
  assume sv: "save_lua lua Written path E = Some (rc, E1, out)" "current E = Some t"
    "(case path of None \<Rightarrow> filename t | Some p \<Rightarrow> Some p) = Some name"
    "name \<noteq> ''*Messages*''" "callback_keeps_buffer lua ''on_saved''"
  from save_resets_dirty [OF sv] show "rc = 0" "map_option dirty (current E1) = Some 0"
    by simp_all
next
  assume "editorOpen lua io name E = Some (Returns rc2 E2)" "name \<noteq> ''*Messages*''"
    "callback_keeps_buffer lua ''on_loaded''"
  then show "map_option dirty (current E2) = Some 0" by (rule open_resets_dirty)
qed

text \<open>
  The operations on \<open>hello world\<close> with the cursor at column 6, and a save and a load in the
  editor with the rows \<open>a\<close> and \<open>b\<close>.
\<close>

theorem dirty_counter_witness:
  "map_option dirty (editorRowInsertChar (hello_world 6 (-1)) 0 0 (CHR ''x'')) = Some 2
   \<and> map_option dirty (editorRowAppendString (hello_world 6 (-1)) 0 ''ab'') = Some 2
   \<and> map_option dirty (editorInsertRow (hello_world 6 (-1)) 0 ''ab'') = Some 2
   \<and> map_option dirty (editorDelRow (hello_world 6 (-1)) 0) = Some 2
   \<and> map_option (\<lambda>s'. 3 \<le> dirty s') (editorInsertChar 22 80 (CHR ''x'') (hello_world 6 (-1)))
       = Some True
   \<and> map_option dirty (editorInsertNewline 22 80 (hello_world 6 (-1))) = Some 2
   \<and> map_option (\<lambda>s'. 2 \<le> dirty s' \<and> dirty s' \<le> 4) (delete_lua 22 80 (hello_world 6 (-1)))
       = Some True
   \<and> map_option (\<lambda>r. (fst r, map_option dirty (current (fst (snd r)))))
        (save_lua quiet_script Written (Some ''t'') ab_editor) = Some (0, Some 0)
   \<and> (\<exists>rc E2. editorOpen quiet_script (Opened ''a\<newline>b\<newline>'') ''t'' ab_editor
                  = Some (Returns rc E2)
          \<and> map_option dirty (current E2) = Some 0)"
proof -
  let ?s = "hello_world 6 (-1)"
  have "editorRowInsertChar ?s 0 0 (CHR ''x'') \<noteq> None" by code_simp
  then obtain s1 where r1: "editorRowInsertChar ?s 0 0 (CHR ''x'') = Some s1" by blast
  have "editorRowAppendString ?s 0 ''ab'' \<noteq> None" by code_simp
  then obtain s2 where r2: "editorRowAppendString ?s 0 ''ab'' = Some s2" by blast
  have "editorInsertRow ?s 0 ''ab'' \<noteq> None" by code_simp
  then obtain s3 where r3: "editorInsertRow ?s 0 ''ab'' = Some s3" by blast
  have "editorDelRow ?s 0 \<noteq> None" by code_simp
  then obtain s4 where r4: "editorDelRow ?s 0 = Some s4" by blast
  have "editorInsertChar 22 80 (CHR ''x'') ?s \<noteq> None" by code_simp
  then obtain s5 where r5: "editorInsertChar 22 80 (CHR ''x'') ?s = Some s5" by blast
  have "editorInsertNewline 22 80 ?s \<noteq> None" by code_simp
  then obtain s6 where r6: "editorInsertNewline 22 80 ?s = Some s6" by blast
  have "delete_lua 22 80 ?s \<noteq> None" by code_simp
  then obtain s7 where r7: "delete_lua 22 80 ?s = Some s7" by blast
  have "save_lua quiet_script Written (Some ''t'') ab_editor \<noteq> None" by code_simp
  then obtain rc E1 out where
    r8: "save_lua quiet_script Written (Some ''t'') ab_editor = Some (rc, E1, out)"
    by (cases "save_lua quiet_script Written (Some ''t'') ab_editor") auto
  have "(case editorOpen quiet_script (Opened ''a\<newline>b\<newline>'') ''t'' ab_editor of
           Some (Returns rc E2) \<Rightarrow> True | _ \<Rightarrow> False)"
    by code_simp
  then obtain rc2 E2 where
    r9: "editorOpen quiet_script (Opened ''a\<newline>b\<newline>'') ''t'' ab_editor = Some (Returns rc2 E2)"
    by (auto split: option.splits open_outcome.splits)
  have cur: "current ab_editor = Some ab_buffer"
    by (simp add: current_def ab_editor_def fresh_editor_def)
  have cb: "callback_keeps_buffer quiet_script ''on_saved''"
    "callback_keeps_buffer quiet_script ''on_loaded''"
    by (auto simp: callback_keeps_buffer_def quiet_script_def)
  have geo: "dirty ?s = 1" "numrows ?s = 1" "rowoff ?s + cy ?s = 0" "coloff ?s + cx ?s = 6"
    by (simp_all add: hello_world_def new_buffer_def)
  note T = dirty_counter
    [where s = ?s and k = 0 and a = 0 and c = "CHR ''x''" and bytes = "''ab''"
       and ?s1.0 = s1 and ?s2.0 = s2 and ?s3.0 = s3 and ?s4.0 = s4 and sr = 22 and sc = 80
       and ?s5.0 = s5 and ?s6.0 = s6 and ?s7.0 = s7 and lua = quiet_script
       and path = "Some ''t''" and E = ab_editor and rc = rc and ?E1.0 = E1 and out = out
       and t = ab_buffer
       and name = "''t''" and io = "Opened ''a\<newline>b\<newline>''" and ?rc2.0 = rc2 and ?E2.0 = E2]
  show ?thesis
    using T by (simp add: r1 r2 r3 r4 r5 r6 r7 r8 r9 cur cb geo)
qed


section \<open>Highlight propagation\<close>

lemma rows_in_order_idx:
  assumes "rows_in_order s" and "i < length (row s)"
  shows "idx (row s ! i) = int i"
proof -
  have "map idx (row s) ! i = map int [0..<length (row s)] ! i"
    using assms(1) by (simp add: rows_in_order_def)
  then show ?thesis using assms(2) by simp
qed

lemma rows_in_order_upd:
  assumes "rows_in_order s" and "\<And>r. idx (f r) = idx r"
  shows "rows_in_order (upd_row k f s)"
proof -
  have "map idx ((row s)[k := f (row s ! k)]) = map idx (row s)"
    by (simp add: map_update assms(2) flip: map_update [of idx])
  then show ?thesis using assms(1) by (simp add: rows_in_order_def upd_row_def)
qed

lemma upd_row_simps [simp]:
  "syntax_cfg (upd_row k f s) = syntax_cfg s"
  "numrows (upd_row k f s) = numrows s"
  "length (row (upd_row k f s)) = length (row s)"
  "i \<noteq> k \<Longrightarrow> row (upd_row k f s) ! i = row s ! i"
  "k < length (row s) \<Longrightarrow> row (upd_row k f s) ! k = f (row s ! k)"
  by (simp_all add: upd_row_def list_update_beyond not_less)

lemma upd_row_render:
  assumes "\<And>r. render (f r) = render r"
  shows "render (row (upd_row k f s) ! i) = render (row s ! i)"
proof (cases "i = k \<and> k < length (row s)")
  case True
  then show ?thesis using assms by simp
next
  case False
  then show ?thesis by (cases "i = k") (simp_all add: upd_row_def list_update_beyond not_less)
qed

lemma rehighlighted_cong:
  assumes "rehighlighted sy s1 s2 k inc" and "render (row s ! k) = render (row s1 ! k)"
    and "hl (row s' ! k) = hl (row s2 ! k)"
  shows "rehighlighted sy s s' k inc"
  using assms by (simp add: rehighlighted_def)

lemma editorUpdateSyntax_propagated:
  assumes "editorUpdateSyntax s k = Some s'"
  shows "rows_in_order s \<longrightarrow> syntax_cfg s = Some sy \<longrightarrow> propagated sy s k s'"
proof (rule editorUpdateSyntax.raw_induct
         [where P = "\<lambda>s k s'. rows_in_order s \<longrightarrow> syntax_cfg s = Some sy \<longrightarrow> propagated sy s k s'",
          OF _ assms], goal_cases)
  case (1 f s k s')
  show ?case
  proof (intro impI)
    assume ord: "rows_in_order s" and sy: "syntax_cfg s = Some sy"
    have k: "k < length (row s)" using 1(2) by (auto split: if_splits)
    have ik: "idx (row s ! k) = int k" using ord k by (rule rows_in_order_idx)
    obtain inc where inc: "prev_open sy s k = Some inc"
      using 1(2) k sy unfolding prev_open_def by (auto split: if_splits option.splits)
    obtain res where res: "highlight_row sy (render (row s ! k)) inc = Some res"
      using 1(2) k sy inc unfolding prev_open_def by (auto split: if_splits option.splits)
    let ?s1 = "upd_row k (\<lambda>r. r\<lparr>hl := fst res\<rparr>) s"
    have ord1: "rows_in_order ?s1" using ord by (rule rows_in_order_upd) simp
    have body: "(if \<not> snd res then Some ?s1
                 else (case editorRowHasOpenComment sy (row ?s1) k of
                         None \<Rightarrow> None
                       | Some oc \<Rightarrow>
                           if hl_oc (row s ! k) \<noteq> oc \<and> idx (row s ! k) + 1 < int (numrows s) then
                             (if idx (row s ! k) + 1 < 0 then None
                              else do {
                                     s2 \<leftarrow> f ?s1 (nat (idx (row s ! k) + 1));
                                     Some (upd_row k (\<lambda>r. r\<lparr>hl_oc := oc\<rparr>) s2)
                                   })
                           else Some (upd_row k (\<lambda>r. r\<lparr>hl := fst res, hl_oc := oc\<rparr>) s))) = Some s'"
      using 1(2) k sy inc [unfolded prev_open_def] res by simp
    have re1: "rehighlighted sy s ?s1 k inc"
      using res k by (simp add: rehighlighted_def)
    show "propagated sy s k s'"
    proof (cases "snd res")
      case False
      then have s': "s' = ?s1" using body by simp
      show ?thesis
        unfolding propagated_def s'
        using ord1 sy k inc re1 by (auto simp: upd_row_render)
    next
      case True
      then obtain oc where oc: "editorRowHasOpenComment sy (row ?s1) k = Some oc"
        using body by (auto split: option.splits)
      show ?thesis
      proof (cases "hl_oc (row s ! k) \<noteq> oc \<and> int k + 1 < int (numrows s)")
        case False
        then have s': "s' = upd_row k (\<lambda>r. r\<lparr>hl := fst res, hl_oc := oc\<rparr>) s"
          using body True oc ik by (auto split: if_splits)
        have n: "numrows s = length (row s)" using ord by (simp add: rows_in_order_def)
        have "rows_in_order s'" unfolding s' using ord by (rule rows_in_order_upd) simp
        moreover have "rehighlighted sy s s' k inc"
          using res k unfolding s' by (simp add: rehighlighted_def)
        ultimately show ?thesis
          unfolding propagated_def
          using sy k inc False n by (auto simp: s' upd_row_render)
      next
        case change: True
        then obtain s2 where s2: "f ?s1 (Suc k) = Some s2"
          and s': "s' = upd_row k (\<lambda>r. r\<lparr>hl_oc := oc\<rparr>) s2"
          using body True oc ik by (auto simp: bind_eq_Some_conv nat_add_distrib split: if_splits)
        have "propagated sy ?s1 (Suc k) s2" using 1(1) [OF s2] ord1 sy by simp
        then have ord2: "rows_in_order s2" and sy2: "syntax_cfg s2 = Some sy"
          and len2: "length (row s2) = length (row s)"
          and Sk: "Suc k < length (row s)"
          and keep2: "\<And>i. i < Suc k \<Longrightarrow> row s2 ! i = row ?s1 ! i"
          and rend2: "\<And>i. render (row s2 ! i) = render (row s ! i)"
          and next2: "\<exists>inc. prev_open sy ?s1 (Suc k) = Some inc \<and> rehighlighted sy ?s1 s2 (Suc k) inc"
          and far2: "\<And>j. Suc k \<le> j \<Longrightarrow> Suc j < length (row s) \<Longrightarrow>
                       (\<forall>i. Suc k \<le> i \<and> i \<le> j \<longrightarrow> hl_oc (row s2 ! i) \<noteq> hl_oc (row ?s1 ! i)) \<Longrightarrow>
                       rehighlighted sy ?s1 s2 (Suc j) (hl_oc (row s2 ! j))"
          unfolding propagated_def by (simp_all add: upd_row_render)
        have k2: "k < length (row s2)" using k len2 by simp
        have ord': "rows_in_order s'" unfolding s' using ord2 by (rule rows_in_order_upd) simp
        have hk: "hl_oc (row s' ! k) = oc" unfolding s' using k2 by simp
        have other: "row s' ! i = row s2 ! i" if "i \<noteq> k" for i unfolding s' using that by simp
        have a: "\<forall>i<k. row s' ! i = row s ! i"
        proof (intro allI impI)
          fix i assume i: "i < k"
          then have "row s' ! i = row s2 ! i" using other by simp
          also have "\<dots> = row ?s1 ! i" using keep2 [of i] i by simp
          also have "\<dots> = row s ! i" using i by simp
          finally show "row s' ! i = row s ! i" .
        qed
        have b: "\<forall>i. render (row s' ! i) = render (row s ! i)"
          unfolding s' using rend2 by (simp add: upd_row_render)
        have "hl (row s' ! k) = hl (row s2 ! k)" unfolding s' using k2 by simp
        also have "\<dots> = hl (row ?s1 ! k)" using keep2 [of k] by simp
        finally have "hl (row s' ! k) = hl (row ?s1 ! k)" .
        then have c: "rehighlighted sy s s' k inc"
          using re1 by (simp add: rehighlighted_def)
        have po: "prev_open sy ?s1 (Suc k) = Some oc"
        proof -
          have "idx (row s ! Suc k) = int (Suc k)"
            using ord Sk by (rule rows_in_order_idx)
          then show ?thesis using oc by (simp add: prev_open_def nat_add_distrib)
        qed
        have d: "rehighlighted sy s s' (Suc j) (hl_oc (row s' ! j))"
          if j: "k \<le> j" "Suc j < length (row s)"
            and ch: "\<forall>i. k \<le> i \<and> i \<le> j \<longrightarrow> hl_oc (row s' ! i) \<noteq> hl_oc (row s ! i)" for j
        proof (cases "j = k")
          case True
          from next2 po have "rehighlighted sy ?s1 s2 (Suc k) oc" by simp
          then have "rehighlighted sy s s' (Suc k) oc"
            by (rule rehighlighted_cong) (simp_all add: upd_row_render other)
          then show ?thesis using True hk by simp
        next
          case False
          then have kj: "Suc k \<le> j" using j(1) by simp
          have "\<forall>i. Suc k \<le> i \<and> i \<le> j \<longrightarrow> hl_oc (row s2 ! i) \<noteq> hl_oc (row ?s1 ! i)"
          proof (intro allI impI)
            fix i assume i: "Suc k \<le> i \<and> i \<le> j"
            then have "hl_oc (row s' ! i) \<noteq> hl_oc (row s ! i)" using ch by simp
            then show "hl_oc (row s2 ! i) \<noteq> hl_oc (row ?s1 ! i)" using i other [of i] by simp
          qed
          from far2 [OF kj j(2) this]
          have "rehighlighted sy ?s1 s2 (Suc j) (hl_oc (row s2 ! j))" .
          moreover have "row s' ! Suc j = row s2 ! Suc j" using other [of "Suc j"] kj by simp
          ultimately have "rehighlighted sy s s' (Suc j) (hl_oc (row s2 ! j))"
            by (simp add: rehighlighted_def upd_row_render)
          then show ?thesis using other [of j] False by simp
        qed
        show ?thesis
          unfolding propagated_def
          using ord' sy2 len2 k a b inc c d by (simp add: s')
      qed
    qed
  qed
qed

lemma comment_rows_highlighted: "editorUpdateSyntax comment_rows 0 = Some comment_rows_done"
  by code_simp

lemma comment_rows_loaded:
  "map_option row
     (load_lines (getlines ''/* open\<newline>still in\<newline>done */ code\<newline>'' [])
        (new_buffer\<lparr>syntax_cfg := Some short_syntax\<rparr>))
     = Some (row comment_rows_done)"
  by code_simp

text \<open>
  In a buffer whose rows are in order (\<open>numrows\<close> is the number of rows), after
  \<^verbatim>\<open>editorUpdateSyntax\<close> on row \<open>k\<close> has returned, if the stored open-comment state of every
  row from \<open>k\<close> to \<open>j\<close> has changed and row \<open>j + 1\<close> exists, then row \<open>j + 1\<close> carries the tags
  of a fresh pass over it that starts with the new state of row \<open>j\<close>.
\<close>

lemma propagation_with_current_numrows:
  assumes "rows_in_order s" and "syntax_cfg s = Some sy" and "editorUpdateSyntax s k = Some s'"
    and "k \<le> j" and "Suc j < length (row s)"
    and "\<forall>i. k \<le> i \<and> i \<le> j \<longrightarrow> hl_oc (row s' ! i) \<noteq> hl_oc (row s ! i)"
  shows "rehighlighted sy s s' (Suc j) (hl_oc (row s' ! j))"
proof -
  have "propagated sy s k s'" using editorUpdateSyntax_propagated assms(1-3) by blast
  then show ?thesis unfolding propagated_def using assms(4-6) by blast
qed

text \<open>
  Claim C6 says that when the open-comment state of a row changes and a row follows, the next
  row is highlighted again. \<^verbatim>\<open>editorInsertRow\<close> highlights the new row before it counts it:
  \<open>numrows\<close> is one short, and the test \<^verbatim>\<open>row->idx + 1 < numrows\<close> fails for a new row that
  has one row behind it. With the rows \<open>x // /* b\<close> and \<open>cc\<close>, a newline typed at column 4
  makes the row \<open> /* b\<close>, which opens a comment; the row \<open>cc\<close> behind it keeps its
  \<^verbatim>\<open>HL_NORMAL\<close> tags, where a pass that starts inside the comment gives \<^verbatim>\<open>HL_MLCOMMENT\<close>.
\<close>

theorem new_row_before_the_last_is_not_propagated:
  "do { s0 \<leftarrow> load_lines [''x // /* b\<newline>'', ''cc\<newline>'']
                  (new_buffer\<lparr>syntax_cfg := Some short_syntax\<rparr>);
        s1 \<leftarrow> times_do 4 (editorMoveCursor 22 80 ARROW_RIGHT) s0;
        s2 \<leftarrow> editorInsertNewline 22 80 s1;
        Some (map (\<lambda>r. (chars r, hl r, hl_oc r)) (row s0),
              map (\<lambda>r. (chars r, hl r, hl_oc r)) (row s2)) }
     = Some ([(''x // /* b'', [HL_NORMAL, HL_KEYWORD1] @ replicate 7 HL_COMMENT, False),
              (''cc'', [HL_NORMAL, HL_NORMAL], False)],
             [(''x //'', [HL_NORMAL, HL_KEYWORD1, HL_COMMENT, HL_COMMENT], False),
              ('' /* b'', HL_NORMAL # replicate 4 HL_MLCOMMENT, True),
              (''cc'', [HL_NORMAL, HL_NORMAL], False)])
   \<and> highlight_row short_syntax ''cc'' True = Some ([HL_MLCOMMENT, HL_MLCOMMENT], True)"
  by code_simp

end
